theory Spec2Isabelle
  imports Main
begin

section \<open>JavaScript values\<close>

text \<open>
  A JavaScript string is a sequence of UTF-16 code units; a code unit is modelled as a
  natural number, so that the characters U+200B, U+00A0 and the like, which the client's
  text normalisation is about, can be written. \<open>js\<close> turns a literal into such a string.
\<close>

type_synonym jsstring = "nat list"

definition js :: "string \<Rightarrow> jsstring" where
  "js s = map of_char s"

text \<open>
  The values a JSON document can hold, with \<open>undefined\<close> for an absent property. A number
  \<open>JNum m e\<close> stands for the decimal \<open>m * 10 ^ e\<close>; an object is the list of its
  properties in insertion order.
\<close>

datatype jsval =
    JUndefined
  | JNull
  | JBool bool
  | JNum int int
  | JStr jsstring
  | JArr "jsval list"
  | JObj "(jsstring \<times> jsval) list"

text \<open>
  A decimal becomes the double 0 exactly when its magnitude is at most half of the least
  subnormal, \<open>2 ^ -1075\<close> (the tie goes to the even mantissa, which is 0).
\<close>

definition num_is_zero :: "int \<Rightarrow> int \<Rightarrow> bool" where
  "num_is_zero m e =
     (m = 0 \<or> (e < 0 \<and> \<bar>m\<bar> * 2 ^ 1075 \<le> 10 ^ nat (- e)))"

fun truthy :: "jsval \<Rightarrow> bool" where
  "truthy JUndefined = False"
| "truthy JNull = False"
| "truthy (JBool b) = b"
| "truthy (JNum m e) = (\<not> num_is_zero m e)"
| "truthy (JStr s) = (s \<noteq> [])"
| "truthy (JArr xs) = True"
| "truthy (JObj kvs) = True"

text \<open>A destructuring default \<open>x = d\<close> is taken when the property is \<open>undefined\<close>.\<close>

definition default_to :: "jsval \<Rightarrow> jsval \<Rightarrow> jsval" where
  "default_to d v = (if v = JUndefined then d else v)"

text \<open>\<open>s.split(sep)\<close> for a separator of one code unit.\<close>

fun split_on :: "nat \<Rightarrow> jsstring \<Rightarrow> jsstring list" where
  "split_on sep [] = [] # []"
| "split_on sep (c # cs) =
     (if c = sep then [] # split_on sep cs
      else (case split_on sep cs of [] \<Rightarrow> [c] # [] | w # ws \<Rightarrow> (c # w) # ws))"

section \<open>The proxy server: requests, responses, errors\<close>

text \<open>
  \<open>req.body\<close> after the JSON body parser: the five properties the handlers read, each
  \<open>JUndefined\<close> when absent.
\<close>

record req_body =
  model :: jsval
  prompt :: jsval
  temperature :: jsval
  maxTokens :: jsval
  stream :: jsval

text \<open>
  The error axios rejects with: \<open>error.response?.status\<close>,
  \<open>error.response?.data?.error?.message\<close> and \<open>error.message\<close>. A timeout has no
  response, so the first two are absent.
\<close>

datatype axios_error =
  AxiosError (err_status: "nat option") (err_detail: "jsstring option") (err_message: jsstring)

datatype js_error =
    ReferenceError string
  | TypeError string
  | SyntaxError string
  | Axios axios_error

text \<open>The upstream call a handler makes, with the values it sends.\<close>

datatype upstream_call =
    GeminiGenerateContent jsval jsval jsval jsval
  | PerplexityChat jsval jsval jsval

text \<open>
  What a handler does to \<open>res\<close>, in order. \<open>Write\<close> is \<open>res.write\<close> of one server-sent
  event: a chunk \<open>{content, model, provider}\<close>, the \<open>[DONE]\<close> marker, or \<open>{error}\<close>.
\<close>

datatype sse_event =
    Chunk jsval jsval string
  | Done
  | ErrorEvent string

datatype json_body =
    ErrorBody string "jsstring option"
  | GeminiBody jsstring jsval
  | PerplexityBody jsstring jsval jsval jsval

datatype res_action =
    SetHeader string string
  | Status nat
  | Json json_body
  | Write sse_event
  | End

text \<open>
  The result of running a handler: the upstream calls made, the actions on \<open>res\<close>, and the
  exception that left the handler, if any.
\<close>

record outcome =
  calls :: "upstream_call list"
  actions :: "res_action list"
  thrown :: "js_error option"

fun is_terminal :: "res_action \<Rightarrow> bool" where
  "is_terminal (Write Done) = True"
| "is_terminal (Write (ErrorEvent m)) = True"
| "is_terminal a = False"

text \<open>The text of the chunk events among a list of actions, in order.\<close>

fun chunk_texts :: "res_action list \<Rightarrow> jsstring list" where
  "chunk_texts [] = []"
| "chunk_texts (Write (Chunk (JStr s) m p) # as) = s # chunk_texts as"
| "chunk_texts (a # as) = chunk_texts as"

section \<open>Scopes\<close>

text \<open>
  \<open>const\<close> bindings are block scoped. The names bound at module level of
  \<open>proxy-server/api/index.js\<close>, by Node's module wrapper and as globals that the file uses,
  the handler's parameters, and the names the \<open>try\<close> block of each handler binds. The
  \<open>catch\<close> block of a handler is a sibling block of its \<open>try\<close> block: it sees \<open>error\<close>, the
  parameters and the module, not the \<open>try\<close> block's bindings.
\<close>

definition module_scope :: "string list" where
  "module_scope =
     [''express'', ''cors'', ''helmet'', ''rateLimit'', ''axios'', ''app'',
      ''createRateLimit'', ''geminiRateLimit'', ''perplexityRateLimit'', ''generalRateLimit'',
      ''exports'', ''require'', ''module'', ''__filename'', ''__dirname'',
      ''process'', ''console'', ''JSON'', ''Date'', ''setTimeout'']"

definition handler_params :: "string list" where
  "handler_params = [''req'', ''res'']"

definition gemini_try_scope :: "string list" where
  "gemini_try_scope =
     [''model'', ''prompt'', ''temperature'', ''maxTokens'', ''stream'', ''url'', ''requestBody'']
     @ handler_params @ module_scope"

definition perplexity_try_scope :: "string list" where
  "perplexity_try_scope =
     [''model'', ''prompt'', ''stream'', ''url'', ''requestBody''] @ handler_params @ module_scope"

definition catch_scope :: "string list" where
  "catch_scope = [''error''] @ handler_params @ module_scope"

section \<open>The Gemini endpoint\<close>

datatype part = Part (part_text: "jsstring option")
datatype content = Content (content_parts: "part list option")
datatype candidate = Candidate (candidate_content: "content option")
datatype gemini_data = GeminiData (candidates: "candidate list option")

datatype 'a upstream_result = Resolved 'a | Rejected axios_error

text \<open>\<open>response.data.candidates && response.data.candidates.length > 0\<close>\<close>

definition has_candidates :: "gemini_data \<Rightarrow> bool" where
  "has_candidates d = (case candidates d of None \<Rightarrow> False | Some cs \<Rightarrow> 0 < length cs)"

text \<open>\<open>response.data.candidates[0].content?.parts?.[0]?.text || ""\<close>\<close>

definition first_text :: "gemini_data \<Rightarrow> jsstring" where
  "first_text d =
     (case candidates d of
        None \<Rightarrow> []
      | Some [] \<Rightarrow> []
      | Some (c # cs) \<Rightarrow>
          (case candidate_content c of
             None \<Rightarrow> []
           | Some ct \<Rightarrow>
               (case content_parts ct of
                  None \<Rightarrow> []
                | Some [] \<Rightarrow> []
                | Some (p # ps) \<Rightarrow> (case part_text p of None \<Rightarrow> [] | Some t \<Rightarrow> t))))"

definition stream_headers :: "res_action list" where
  "stream_headers =
     [SetHeader ''Content-Type'' ''text/event-stream'',
      SetHeader ''Cache-Control'' ''no-cache'',
      SetHeader ''Connection'' ''keep-alive'',
      SetHeader ''Access-Control-Allow-Origin'' ''*'',
      SetHeader ''Access-Control-Allow-Headers'' ''Cache-Control'']"

text \<open>
  \<open>sendChunk\<close> writes one word per call and re-arms itself with a timer until the index
  reaches the number of words; then it writes the end marker and ends the response.
\<close>

function sendChunk :: "jsval \<Rightarrow> jsstring list \<Rightarrow> nat \<Rightarrow> res_action list" where
  "sendChunk mdl words index =
     (if index < length words
      then Write (Chunk (JStr (words ! index
                    @ (if int index < int (length words) - 1 then js '' '' else [])))
                  mdl ''gemini'')
           # sendChunk mdl words (index + 1)
      else [Write Done, End])"
  by pat_completeness auto
termination
  by (relation "measure (\<lambda>(mdl, words, index). length words - index)") auto

declare sendChunk.simps [simp del]

text \<open>The body of the \<open>catch\<close> block, for a value of the name \<open>stream\<close>.\<close>

fun status_of :: "js_error \<Rightarrow> nat option" where
  "status_of (Axios e) = err_status e"
| "status_of e = None"

fun detail_of :: "js_error \<Rightarrow> jsstring option" where
  "detail_of (Axios e) = err_detail e"
| "detail_of e = None"

fun message_of :: "js_error \<Rightarrow> jsstring" where
  "message_of (Axios e) = err_message e"
| "message_of (ReferenceError x) = js (x @ '' is not defined'')"
| "message_of (TypeError m) = js m"
| "message_of (SyntaxError m) = js m"

text \<open>\<open>a || b\<close> on an optional string: the empty string is falsy too.\<close>

definition or_else :: "jsstring option \<Rightarrow> jsstring \<Rightarrow> jsstring" where
  "or_else a b = (case a of None \<Rightarrow> b | Some s \<Rightarrow> if s = [] then b else s)"

text \<open>\<open>!v\<close> on an optional string, as for an environment variable.\<close>

definition unset :: "jsstring option \<Rightarrow> bool" where
  "unset v = (case v of None \<Rightarrow> True | Some s \<Rightarrow> s = [])"

definition gemini_catch_body :: "bool \<Rightarrow> js_error \<Rightarrow> res_action list" where
  "gemini_catch_body strm error =
     (if strm then [Write (ErrorEvent ''Gemini API request failed''), End]
      else if status_of error = Some 429
        then [Status 429, Json (ErrorBody ''Gemini API rate limit exceeded'' None)]
      else if status_of error = Some 400
        then [Status 400,
              Json (ErrorBody ''Invalid request to Gemini API''
                      (Some (or_else (detail_of error) (js ''Bad request''))))]
      else [Status 500,
            Json (ErrorBody ''Gemini API request failed''
                    (Some (or_else (detail_of error) (message_of error))))])"

text \<open>
  The \<open>catch\<close> block first reads the name \<open>stream\<close>. A name that no enclosing scope binds
  raises a ReferenceError.
\<close>

definition gemini_catch :: "string list \<Rightarrow> jsval \<Rightarrow> js_error \<Rightarrow> js_error + res_action list" where
  "gemini_catch scope strm error =
     (if ''stream'' \<in> set scope then Inr (gemini_catch_body (truthy strm) error)
      else Inl (ReferenceError ''stream''))"

text \<open>
  The \<open>try\<close> block: the calls made, the actions done, and the exception that ended it, if
  any. The API key is \<open>process.env.GEMINI_API_KEY\<close>; \<open>upstream\<close> is what \<open>axios.post\<close>
  gives when it is called.
\<close>

definition gemini_try ::
  "jsstring option \<Rightarrow> req_body \<Rightarrow> gemini_data upstream_result
     \<Rightarrow> upstream_call list \<times> res_action list \<times> js_error option" where
  "gemini_try api_key body upstream =
     (let mdl = model body;
          prmpt = prompt body;
          temp = default_to (JNum 7 (- 1)) (temperature body);
          maxT = default_to (JNum 2048 0) (maxTokens body);
          strm = default_to (JBool False) (stream body)
      in
      if \<not> truthy mdl \<or> \<not> truthy prmpt
      then ([], [Status 400,
                 Json (ErrorBody ''Missing required fields: model and prompt are required'' None)],
            None)
      else if unset api_key
      then ([], [Status 500, Json (ErrorBody ''Gemini API key not configured'' None)], None)
      else if truthy strm then
        (case upstream of
           Rejected e \<Rightarrow> ([GeminiGenerateContent mdl prmpt temp maxT], [], Some (Axios e))
         | Resolved d \<Rightarrow>
             ([GeminiGenerateContent mdl prmpt temp maxT],
              (if has_candidates d
               then stream_headers @ sendChunk mdl (split_on 32 (first_text d)) 0
               else [SetHeader ''Content-Type'' ''text/event-stream'',
                     Write (ErrorEvent ''No response from Gemini API''), End]),
              None))
      else
        (case upstream of
           Rejected e \<Rightarrow> ([GeminiGenerateContent mdl prmpt temp maxT], [], Some (Axios e))
         | Resolved d \<Rightarrow>
             ([GeminiGenerateContent mdl prmpt temp maxT],
              (if has_candidates d
               then [Json (GeminiBody (first_text d) mdl)]
               else [Status 500, Json (ErrorBody ''No response from Gemini API'' None)]),
              None)))"

text \<open>
  The handler: the \<open>try\<close> block, and on an exception the \<open>catch\<close> block in its own scope.
  An exception of the \<open>catch\<close> block leaves the handler.
\<close>

definition gemini_handler ::
  "jsstring option \<Rightarrow> req_body \<Rightarrow> gemini_data upstream_result \<Rightarrow> outcome" where
  "gemini_handler api_key body upstream =
     (case gemini_try api_key body upstream of
        (cs, acts, None) \<Rightarrow> \<lparr>calls = cs, actions = acts, thrown = None\<rparr>
      | (cs, acts, Some e) \<Rightarrow>
          (case gemini_catch catch_scope (default_to (JBool False) (stream body)) e of
             Inl e' \<Rightarrow> \<lparr>calls = cs, actions = acts, thrown = Some e'\<rparr>
           | Inr acts' \<Rightarrow> \<lparr>calls = cs, actions = acts @ acts', thrown = None\<rparr>))"


section \<open>White space\<close>

text \<open>
  JavaScript's white space and line terminators: what \<open>trim\<close> strips and what \<open>\\s\<close>
  matches in a regular expression.
\<close>

definition is_space :: "nat \<Rightarrow> bool" where
  "is_space c =
     (c = 9 \<or> c = 10 \<or> c = 11 \<or> c = 12 \<or> c = 13 \<or> c = 32 \<or> c = 160 \<or> c = 5760
      \<or> (8192 \<le> c \<and> c \<le> 8202) \<or> c = 8232 \<or> c = 8233 \<or> c = 8239 \<or> c = 8287
      \<or> c = 12288 \<or> c = 65279)"

definition trim :: "jsstring \<Rightarrow> jsstring" where
  "trim s = rev (dropWhile is_space (rev (dropWhile is_space s)))"

section \<open>JSON.parse and property access\<close>

text \<open>
  \<open>JSON.parse\<close> as two automata that take one symbol at a time: a lexer from code units
  to tokens and a parser from tokens to a value, with a stack of the arrays and objects
  that are open. \<open>None\<close> is the SyntaxError.
\<close>

datatype token = TLBrace | TRBrace | TLBrack | TRBrack | TColon | TComma | TVal jsval

text \<open>
  The lexer's states: between tokens; in a string (the code units so far, reversed),
  after a backslash, in the four hexadecimal digits of \<open>\\u\<close>; in a literal (what is left
  of \<open>true\<close>, \<open>false\<close> or \<open>null\<close>); and the positions in the grammar of a number,
  \<open>-? (0 | [1-9][0-9]*) (. [0-9]+)? ([eE] [+-]? [0-9]+)?\<close>, with the sign, the digits
  read as one integer, the number of digits of the fraction, and the exponent.
\<close>

datatype lstate =
    LStart
  | LStr jsstring
  | LEsc jsstring
  | LHex jsstring nat nat
  | LLit jsstring jsval
  | LMinus
  | LZero bool
  | LInt bool int
  | LDot bool int
  | LFrac bool int nat
  | LExp bool int nat
  | LExpSign bool int nat bool
  | LExpDigits bool int nat bool int

definition is_digit :: "nat \<Rightarrow> bool" where
  "is_digit c = (48 \<le> c \<and> c \<le> 57)"

definition digit_val :: "nat \<Rightarrow> int" where
  "digit_val c = int c - 48"

definition hex_val :: "nat \<Rightarrow> nat option" where
  "hex_val c =
     (if 48 \<le> c \<and> c \<le> 57 then Some (c - 48)
      else if 65 \<le> c \<and> c \<le> 70 then Some (c - 55)
      else if 97 \<le> c \<and> c \<le> 102 then Some (c - 87)
      else None)"

definition signed :: "bool \<Rightarrow> int \<Rightarrow> int" where
  "signed neg m = (if neg then - m else m)"

definition start_char :: "nat \<Rightarrow> (token list \<times> lstate) option" where
  "start_char c =
     (if c = 32 \<or> c = 9 \<or> c = 10 \<or> c = 13 then Some ([], LStart)
      else if c = 123 then Some ([TLBrace], LStart)
      else if c = 125 then Some ([TRBrace], LStart)
      else if c = 91 then Some ([TLBrack], LStart)
      else if c = 93 then Some ([TRBrack], LStart)
      else if c = 58 then Some ([TColon], LStart)
      else if c = 44 then Some ([TComma], LStart)
      else if c = 34 then Some ([], LStr [])
      else if c = 45 then Some ([], LMinus)
      else if c = 48 then Some ([], LZero False)
      else if is_digit c then Some ([], LInt False (digit_val c))
      else if c = 116 then Some ([], LLit (js ''rue'') (JBool True))
      else if c = 102 then Some ([], LLit (js ''alse'') (JBool False))
      else if c = 110 then Some ([], LLit (js ''ull'') JNull)
      else None)"

text \<open>A number ends at the first code unit that cannot continue it; that one starts anew.\<close>

definition end_number :: "jsval \<Rightarrow> nat \<Rightarrow> (token list \<times> lstate) option" where
  "end_number v c =
     (case start_char c of None \<Rightarrow> None | Some (ts, st) \<Rightarrow> Some (TVal v # ts, st))"

fun lex_step :: "lstate \<Rightarrow> nat \<Rightarrow> (token list \<times> lstate) option" where
  "lex_step LStart c = start_char c"
| "lex_step (LStr acc) c =
     (if c = 34 then Some ([TVal (JStr (rev acc))], LStart)
      else if c = 92 then Some ([], LEsc acc)
      else if c < 32 then None
      else Some ([], LStr (c # acc)))"
| "lex_step (LEsc acc) c =
     (if c = 34 \<or> c = 92 \<or> c = 47 then Some ([], LStr (c # acc))
      else if c = 98 then Some ([], LStr (8 # acc))
      else if c = 102 then Some ([], LStr (12 # acc))
      else if c = 110 then Some ([], LStr (10 # acc))
      else if c = 114 then Some ([], LStr (13 # acc))
      else if c = 116 then Some ([], LStr (9 # acc))
      else if c = 117 then Some ([], LHex acc 0 0)
      else None)"
| "lex_step (LHex acc n v) c =
     (case hex_val c of
        None \<Rightarrow> None
      | Some d \<Rightarrow> if n = 3 then Some ([], LStr ((v * 16 + d) # acc))
                  else Some ([], LHex acc (n + 1) (v * 16 + d)))"
| "lex_step (LLit left v) c =
     (case left of
        [] \<Rightarrow> None
      | r # rs \<Rightarrow> if c \<noteq> r then None
                  else if rs = [] then Some ([TVal v], LStart)
                  else Some ([], LLit rs v))"
| "lex_step LMinus c =
     (if c = 48 then Some ([], LZero True)
      else if is_digit c then Some ([], LInt True (digit_val c))
      else None)"
| "lex_step (LZero neg) c =
     (if c = 46 then Some ([], LDot neg 0)
      else if c = 101 \<or> c = 69 then Some ([], LExp neg 0 0)
      else end_number (JNum 0 0) c)"
| "lex_step (LInt neg m) c =
     (if is_digit c then Some ([], LInt neg (m * 10 + digit_val c))
      else if c = 46 then Some ([], LDot neg m)
      else if c = 101 \<or> c = 69 then Some ([], LExp neg m 0)
      else end_number (JNum (signed neg m) 0) c)"
| "lex_step (LDot neg m) c =
     (if is_digit c then Some ([], LFrac neg (m * 10 + digit_val c) 1) else None)"
| "lex_step (LFrac neg m f) c =
     (if is_digit c then Some ([], LFrac neg (m * 10 + digit_val c) (f + 1))
      else if c = 101 \<or> c = 69 then Some ([], LExp neg m f)
      else end_number (JNum (signed neg m) (- int f)) c)"
| "lex_step (LExp neg m f) c =
     (if c = 43 then Some ([], LExpSign neg m f False)
      else if c = 45 then Some ([], LExpSign neg m f True)
      else if is_digit c then Some ([], LExpDigits neg m f False (digit_val c))
      else None)"
| "lex_step (LExpSign neg m f en) c =
     (if is_digit c then Some ([], LExpDigits neg m f en (digit_val c)) else None)"
| "lex_step (LExpDigits neg m f en e) c =
     (if is_digit c then Some ([], LExpDigits neg m f en (e * 10 + digit_val c))
      else end_number (JNum (signed neg m) (signed en e - int f)) c)"

fun lex_end :: "lstate \<Rightarrow> token list option" where
  "lex_end LStart = Some []"
| "lex_end (LZero neg) = Some [TVal (JNum 0 0)]"
| "lex_end (LInt neg m) = Some [TVal (JNum (signed neg m) 0)]"
| "lex_end (LFrac neg m f) = Some [TVal (JNum (signed neg m) (- int f))]"
| "lex_end (LExpDigits neg m f en e) = Some [TVal (JNum (signed neg m) (signed en e - int f))]"
| "lex_end st = None"

fun lex_run :: "lstate \<Rightarrow> jsstring \<Rightarrow> token list option" where
  "lex_run st [] = lex_end st"
| "lex_run st (c # cs) =
     (case lex_step st c of
        None \<Rightarrow> None
      | Some (ts, st') \<Rightarrow>
          (case lex_run st' cs of None \<Rightarrow> None | Some ts' \<Rightarrow> Some (ts @ ts')))"

text \<open>
  The parser's stack: an open array with its elements so far (reversed), or an open
  object with its properties so far (reversed) and the key whose value is being read.
  Its states: a value must come; a value or \<open>]\<close> must come (just after \<open>[\<close>); a key
  must come, or \<open>}\<close> when the object is still empty; a colon must come; a value has
  been read.
\<close>

datatype frame = FArr "jsval list" | FObj "(jsstring \<times> jsval) list" jsstring

datatype pstate =
    PValue
  | PArrFirst
  | PKey "(jsstring \<times> jsval) list" bool
  | PColon "(jsstring \<times> jsval) list" jsstring
  | PAfter jsval

fun parse_run :: "pstate \<Rightarrow> frame list \<Rightarrow> token list \<Rightarrow> jsval option" where
  "parse_run PValue st (TVal v # ts) = parse_run (PAfter v) st ts"
| "parse_run PValue st (TLBrack # ts) = parse_run PArrFirst st ts"
| "parse_run PValue st (TLBrace # ts) = parse_run (PKey [] True) st ts"
| "parse_run PArrFirst st (TRBrack # ts) = parse_run (PAfter (JArr [])) st ts"
| "parse_run PArrFirst st (TVal v # ts) = parse_run (PAfter v) (FArr [] # st) ts"
| "parse_run PArrFirst st (TLBrack # ts) = parse_run PArrFirst (FArr [] # st) ts"
| "parse_run PArrFirst st (TLBrace # ts) = parse_run (PKey [] True) (FArr [] # st) ts"
| "parse_run (PKey kvs first) st (TVal (JStr k) # ts) = parse_run (PColon kvs k) st ts"
| "parse_run (PKey kvs True) st (TRBrace # ts) = parse_run (PAfter (JObj (rev kvs))) st ts"
| "parse_run (PColon kvs k) st (TColon # ts) = parse_run PValue (FObj kvs k # st) ts"
| "parse_run (PAfter v) (FArr items # st) (TComma # ts) = parse_run PValue (FArr (v # items) # st) ts"
| "parse_run (PAfter v) (FArr items # st) (TRBrack # ts) =
     parse_run (PAfter (JArr (rev (v # items)))) st ts"
| "parse_run (PAfter v) (FObj kvs k # st) (TComma # ts) = parse_run (PKey ((k, v) # kvs) False) st ts"
| "parse_run (PAfter v) (FObj kvs k # st) (TRBrace # ts) =
     parse_run (PAfter (JObj (rev ((k, v) # kvs)))) st ts"
| "parse_run (PAfter v) [] [] = Some v"
| "parse_run p st ts = None"

definition JSON_parse :: "jsstring \<Rightarrow> jsval option" where
  "JSON_parse s = (case lex_run LStart s of None \<Rightarrow> None | Some ts \<Rightarrow> parse_run PValue [] ts)"

text \<open>
  \<open>v.name\<close> for the names the source reads (\<open>choices\<close>, \<open>delta\<close>, \<open>content\<close>, \<open>summary\<close>,
  \<open>details\<close>, \<open>key_points\<close>, \<open>status\<close>), none of which a prototype defines: a TypeError
  on \<open>undefined\<close> and \<open>null\<close>, the property on an object (the last one, when the
  document repeats a key), \<open>undefined\<close> on any other value.
\<close>

fun get_prop :: "jsval \<Rightarrow> jsstring \<Rightarrow> js_error + jsval" where
  "get_prop JUndefined k = Inl (TypeError ''Cannot read properties of undefined'')"
| "get_prop JNull k = Inl (TypeError ''Cannot read properties of null'')"
| "get_prop (JObj kvs) k = Inr (case map_of (rev kvs) k of None \<Rightarrow> JUndefined | Some v \<Rightarrow> v)"
| "get_prop v k = Inr JUndefined"

text \<open>\<open>v[0]\<close> on a value that is neither \<open>undefined\<close> nor \<open>null\<close>.\<close>

fun get_index0 :: "jsval \<Rightarrow> jsval" where
  "get_index0 (JArr xs) = (case xs of [] \<Rightarrow> JUndefined | x # _ \<Rightarrow> x)"
| "get_index0 (JStr s) = (case s of [] \<Rightarrow> JUndefined | c # _ \<Rightarrow> JStr [c])"
| "get_index0 (JObj kvs) = (case map_of (rev kvs) (js ''0'') of None \<Rightarrow> JUndefined | Some v \<Rightarrow> v)"
| "get_index0 v = JUndefined"

text \<open>\<open>v?.name\<close>: \<open>undefined\<close> when \<open>v\<close> is \<open>undefined\<close> or \<open>null\<close>.\<close>

definition opt_prop :: "jsval \<Rightarrow> jsstring \<Rightarrow> jsval" where
  "opt_prop v k = (case get_prop v k of Inl e \<Rightarrow> JUndefined | Inr x \<Rightarrow> x)"

section \<open>The Perplexity endpoint\<close>

datatype pmessage = PMessage (message_content: "jsstring option")
datatype choice = Choice (choice_message: "pmessage option")
datatype perplexity_data =
  PerplexityData (choices: "choice list option") (citations: jsval) (search_results: jsval)

text \<open>What the upstream stream emits: \<open>data\<close> with a chunk, \<open>end\<close>, or \<open>error\<close>.\<close>

datatype stream_event = StreamData jsstring | StreamEnd | StreamError

text \<open>
  The \<open>data\<close> listener. Each line of the chunk that is not blank and starts with
  \<open>data: \<close> is read: the end sentinel writes the end marker, ends the response and
  returns from the listener; anything else is parsed, and written as a chunk when
  \<open>parsed.choices && parsed.choices[0]?.delta?.content\<close> is truthy. A line that does not
  parse, or whose value is \<open>null\<close>, is skipped by the inner \<open>catch\<close>.
\<close>

definition delta_content :: "jsval \<Rightarrow> jsval option" where
  "delta_content parsed =
     (case get_prop parsed (js ''choices'') of
        Inl e \<Rightarrow> None
      | Inr chs \<Rightarrow>
          if \<not> truthy chs then None
          else (let c = opt_prop (opt_prop (get_index0 chs) (js ''delta'')) (js ''content'')
                in if truthy c then Some c else None))"

fun on_data_lines :: "jsval \<Rightarrow> jsstring list \<Rightarrow> res_action list" where
  "on_data_lines mdl [] = []"
| "on_data_lines mdl (line # lines) =
     (if trim line \<noteq> [] \<and> take 6 line = js ''data: '' then
        (let dat = drop 6 line in
         if dat = js ''[DONE]'' then [Write Done, End]
         else (case JSON_parse dat of
                 None \<Rightarrow> on_data_lines mdl lines
               | Some parsed \<Rightarrow>
                   (case delta_content parsed of
                      None \<Rightarrow> on_data_lines mdl lines
                    | Some c \<Rightarrow> Write (Chunk c mdl ''perplexity'') # on_data_lines mdl lines)))
      else on_data_lines mdl lines)"

fun on_stream_event :: "jsval \<Rightarrow> stream_event \<Rightarrow> res_action list" where
  "on_stream_event mdl (StreamData chunk) = on_data_lines mdl (split_on 10 chunk)"
| "on_stream_event mdl StreamEnd = [Write Done, End]"
| "on_stream_event mdl StreamError = [Write (ErrorEvent ''Streaming error occurred''), End]"

text \<open>The listeners run once per event of the upstream stream, in order.\<close>

definition on_stream :: "jsval \<Rightarrow> stream_event list \<Rightarrow> res_action list" where
  "on_stream mdl evs = concat (map (on_stream_event mdl) evs)"

text \<open>\<open>response.data.choices && response.data.choices.length > 0\<close>\<close>

definition has_choices :: "perplexity_data \<Rightarrow> bool" where
  "has_choices d = (case choices d of None \<Rightarrow> False | Some cs \<Rightarrow> 0 < length cs)"

text \<open>\<open>response.data.choices[0].message?.content || ""\<close>\<close>

definition first_message :: "perplexity_data \<Rightarrow> jsstring" where
  "first_message d =
     (case choices d of
        None \<Rightarrow> []
      | Some [] \<Rightarrow> []
      | Some (c # cs) \<Rightarrow>
          (case choice_message c of
             None \<Rightarrow> []
           | Some m \<Rightarrow> (case message_content m of None \<Rightarrow> [] | Some t \<Rightarrow> t)))"

text \<open>\<open>v || []\<close>\<close>

definition or_empty_array :: "jsval \<Rightarrow> jsval" where
  "or_empty_array v = (if truthy v then v else JArr [])"

definition perplexity_catch_body :: "bool \<Rightarrow> js_error \<Rightarrow> res_action list" where
  "perplexity_catch_body strm error =
     (if strm then [Write (ErrorEvent ''Perplexity API request failed''), End]
      else if status_of error = Some 429
        then [Status 429, Json (ErrorBody ''Perplexity API rate limit exceeded'' None)]
      else if status_of error = Some 400
        then [Status 400,
              Json (ErrorBody ''Invalid request to Perplexity API''
                      (Some (or_else (detail_of error) (js ''Bad request''))))]
      else [Status 500,
            Json (ErrorBody ''Perplexity API request failed''
                    (Some (or_else (detail_of error) (message_of error))))])"

definition perplexity_catch ::
  "string list \<Rightarrow> jsval \<Rightarrow> js_error \<Rightarrow> js_error + res_action list" where
  "perplexity_catch scope strm error =
     (if ''stream'' \<in> set scope then Inr (perplexity_catch_body (truthy strm) error)
      else Inl (ReferenceError ''stream''))"

text \<open>
  The \<open>try\<close> block. In streaming mode the headers are set before the call, and
  \<open>upstream_stream\<close> is what \<open>axios.post\<close> with \<open>responseType: "stream"\<close> gives: the
  events of the upstream stream, or a rejection. Otherwise \<open>upstream_plain\<close> is what the
  plain call gives.
\<close>

definition perplexity_try ::
  "jsstring option \<Rightarrow> req_body \<Rightarrow> stream_event list upstream_result
     \<Rightarrow> perplexity_data upstream_result
     \<Rightarrow> upstream_call list \<times> res_action list \<times> js_error option" where
  "perplexity_try api_key body upstream_stream upstream_plain =
     (let mdl = model body;
          prmpt = prompt body;
          strm = default_to (JBool False) (stream body)
      in
      if \<not> truthy mdl \<or> \<not> truthy prmpt
      then ([], [Status 400,
                 Json (ErrorBody ''Missing required fields: model and prompt are required'' None)],
            None)
      else if unset api_key
      then ([], [Status 500, Json (ErrorBody ''Perplexity API key not configured'' None)], None)
      else if truthy strm then
        (case upstream_stream of
           Rejected e \<Rightarrow> ([PerplexityChat mdl prmpt strm], stream_headers, Some (Axios e))
         | Resolved evs \<Rightarrow>
             ([PerplexityChat mdl prmpt strm], stream_headers @ on_stream mdl evs, None))
      else
        (case upstream_plain of
           Rejected e \<Rightarrow> ([PerplexityChat mdl prmpt strm], [], Some (Axios e))
         | Resolved d \<Rightarrow>
             ([PerplexityChat mdl prmpt strm],
              (if has_choices d
               then [Json (PerplexityBody (first_message d) (or_empty_array (citations d))
                             (or_empty_array (search_results d)) mdl)]
               else [Status 500, Json (ErrorBody ''No response from Perplexity API'' None)]),
              None)))"

definition perplexity_handler ::
  "jsstring option \<Rightarrow> req_body \<Rightarrow> stream_event list upstream_result
     \<Rightarrow> perplexity_data upstream_result \<Rightarrow> outcome" where
  "perplexity_handler api_key body upstream_stream upstream_plain =
     (case perplexity_try api_key body upstream_stream upstream_plain of
        (cs, acts, None) \<Rightarrow> \<lparr>calls = cs, actions = acts, thrown = None\<rparr>
      | (cs, acts, Some e) \<Rightarrow>
          (case perplexity_catch catch_scope (default_to (JBool False) (stream body)) e of
             Inl e' \<Rightarrow> \<lparr>calls = cs, actions = acts, thrown = Some e'\<rparr>
           | Inr acts' \<Rightarrow> \<lparr>calls = cs, actions = acts @ acts', thrown = None\<rparr>))"

section \<open>The quota limiter\<close>

text \<open>
  The three limiters of the source, as \<open>createRateLimit\<close> configures them: the window in
  milliseconds, the number of requests allowed in it, and the message of a refusal.
\<close>

record rate_limit_options =
  windowMs :: int
  max_requests :: nat
  limit_message :: string

definition createRateLimit :: "int \<Rightarrow> nat \<Rightarrow> string \<Rightarrow> rate_limit_options" where
  "createRateLimit w m msg = \<lparr>windowMs = w, max_requests = m, limit_message = msg\<rparr>"

definition geminiRateLimit :: rate_limit_options where
  "geminiRateLimit =
     createRateLimit (15 * 60 * 1000) 50 ''Gemini API rate limit exceeded. Please try again later.''"

definition perplexityRateLimit :: rate_limit_options where
  "perplexityRateLimit =
     createRateLimit (15 * 60 * 1000) 30
       ''Perplexity API rate limit exceeded. Please try again later.''"

definition generalRateLimit :: rate_limit_options where
  "generalRateLimit =
     createRateLimit (15 * 60 * 1000) 100 ''General API rate limit exceeded. Please try again later.''"

text \<open>
  The key of a client: \<open>req.ip\<close>, a hyphen, and the User-Agent header, which prints as
  \<open>undefined\<close> when the request has none.
\<close>

definition keyGenerator :: "jsstring \<Rightarrow> jsstring option \<Rightarrow> jsstring" where
  "keyGenerator ip ua =
     ip @ js ''-'' @ (case ua of None \<Rightarrow> js ''undefined'' | Some u \<Rightarrow> u)"

text \<open>
  Modelled from the spec: the admission check itself. The source builds its limiters with
  the package express-rate-limit, whose code is not part of the repository; the
  source only gives the options above and chains the limiters before each handler. The
  window and the check follow sections 3 and 4.1 of the specification: a window
  \<open>{windowStartTime, windowDurationMs, maxRequests, countsByKey}\<close>, and "on each call: if
  the window has expired, reset it; increment \<open>countsByKey[identity]\<close>; return
  \<open>allowed = count <= maxRequests\<close>", where the window has expired when
  \<open>now - windowStartTime >= windowDurationMs\<close>.
\<close>

record QuotaWindow =
  windowStartTime :: int
  windowDurationMs :: int
  maxRequests :: nat
  countsByKey :: "jsstring \<rightharpoonup> nat"

definition new_window :: "rate_limit_options \<Rightarrow> int \<Rightarrow> QuotaWindow" where
  "new_window opts now =
     \<lparr>windowStartTime = now, windowDurationMs = windowMs opts,
      maxRequests = max_requests opts, countsByKey = Map.empty\<rparr>"

definition expired :: "int \<Rightarrow> QuotaWindow \<Rightarrow> bool" where
  "expired now w = (windowDurationMs w \<le> now - windowStartTime w)"

definition reset_window :: "int \<Rightarrow> QuotaWindow \<Rightarrow> QuotaWindow" where
  "reset_window now w = w\<lparr>windowStartTime := now, countsByKey := Map.empty\<rparr>"

definition admit :: "int \<Rightarrow> jsstring \<Rightarrow> QuotaWindow \<Rightarrow> bool \<times> QuotaWindow" where
  "admit now k w =
     (let w1 = (if expired now w then reset_window now w else w);
          c = (case countsByKey w1 k of None \<Rightarrow> 1 | Some n \<Rightarrow> n + 1)
      in (c \<le> maxRequests w1, w1\<lparr>countsByKey := (countsByKey w1)(k \<mapsto> c)\<rparr>))"

text \<open>The count of an identity in a window, 0 when it has no entry.\<close>

definition count_of :: "QuotaWindow \<Rightarrow> jsstring \<Rightarrow> nat" where
  "count_of w k = (case countsByKey w k of None \<Rightarrow> 0 | Some n \<Rightarrow> n)"

text \<open>A run of calls \<open>(time, identity)\<close> on one window: the decisions, in order.\<close>

fun admit_all :: "(int \<times> jsstring) list \<Rightarrow> QuotaWindow \<Rightarrow> bool list" where
  "admit_all [] w = []"
| "admit_all (c # cs) w =
     (case admit (fst c) (snd c) w of (a, w') \<Rightarrow> a # admit_all cs w')"

text \<open>The decisions that a run gave to the calls of identity \<open>k\<close>.\<close>

fun decisions_of :: "jsstring \<Rightarrow> (int \<times> jsstring) list \<Rightarrow> bool list \<Rightarrow> bool list" where
  "decisions_of k (c # cs) (d # ds) =
     (if snd c = k then d # decisions_of k cs ds else decisions_of k cs ds)"
| "decisions_of k cs ds = []"

text \<open>
  The middleware chain of a route (\<open>app.post(path, generalRateLimit, providerRateLimit,
  handler)\<close>): the general limiter first; a limiter that refuses answers 429 with its
  message and does not call the next one.
\<close>

datatype route = GeminiRoute | PerplexityRoute

record limiters =
  general_window :: QuotaWindow
  gemini_window :: QuotaWindow
  perplexity_window :: QuotaWindow

definition provider_window :: "route \<Rightarrow> limiters \<Rightarrow> QuotaWindow" where
  "provider_window r ls = (case r of GeminiRoute \<Rightarrow> gemini_window ls | PerplexityRoute \<Rightarrow> perplexity_window ls)"

definition set_provider_window :: "route \<Rightarrow> QuotaWindow \<Rightarrow> limiters \<Rightarrow> limiters" where
  "set_provider_window r w ls =
     (case r of GeminiRoute \<Rightarrow> ls\<lparr>gemini_window := w\<rparr>
              | PerplexityRoute \<Rightarrow> ls\<lparr>perplexity_window := w\<rparr>)"

definition provider_options :: "route \<Rightarrow> rate_limit_options" where
  "provider_options r = (case r of GeminiRoute \<Rightarrow> geminiRateLimit | PerplexityRoute \<Rightarrow> perplexityRateLimit)"

definition new_limiters :: "int \<Rightarrow> limiters" where
  "new_limiters now =
     \<lparr>general_window = new_window generalRateLimit now,
      gemini_window = new_window geminiRateLimit now,
      perplexity_window = new_window perplexityRateLimit now\<rparr>"

text \<open>\<open>None\<close>: the request reaches the handler; \<open>Some msg\<close>: it is refused with 429.\<close>

definition admit_route :: "int \<Rightarrow> jsstring \<Rightarrow> route \<Rightarrow> limiters \<Rightarrow> string option \<times> limiters" where
  "admit_route now k r ls =
     (case admit now k (general_window ls) of
        (a1, g) \<Rightarrow>
          if \<not> a1 then (Some (limit_message generalRateLimit), ls\<lparr>general_window := g\<rparr>)
          else (case admit now k (provider_window r ls) of
                  (a2, p) \<Rightarrow>
                    (if a2 then None else Some (limit_message (provider_options r)),
                     set_provider_window r p (ls\<lparr>general_window := g\<rparr>))))"

section \<open>The client: the stream consumer\<close>

text \<open>
  The state of the \<open>App\<close> component that the stream touches, and the history messages the
  host application keeps.
\<close>

record ConversationMessage =
  msg_id :: jsstring
  msg_role :: jsstring
  msg_content :: jsstring
  msg_timestamp :: int

record app_state =
  message :: jsstring
  isLoading :: bool
  response :: jsstring
  error :: jsstring
  conversationHistory :: "ConversationMessage list"

text \<open>
  What can happen to the component: one of the four events of the stream arrives (the
  \<open>done\<close> event reloads the history, and carries here what \<open>get_conversation_history\<close>
  gives, \<open>None\<close> when that call fails); \<open>handleSubmit\<close> runs up to its \<open>await\<close>; the
  \<open>ask_ai_stream\<close> call it awaits is rejected; the \<open>stop_streaming\<close> call that
  \<open>handleStop\<close> awaits settles, either way.
\<close>

datatype app_action =
    AiResponseChunk jsstring
  | AiResponseDone "ConversationMessage list option"
  | AiResponseError jsstring
  | AiResponseCancelled jsstring
  | HandleSubmit
  | AskAiStreamRejected jsstring
  | HandleStopSettled bool

fun app_step :: "app_state \<Rightarrow> app_action \<Rightarrow> app_state" where
  "app_step s (AiResponseChunk payload) = s\<lparr>response := response s @ payload\<rparr>"
| "app_step s (AiResponseDone h) =
     (let s' = s\<lparr>isLoading := False, message := []\<rparr>
      in case h of None \<Rightarrow> s' | Some hist \<Rightarrow> s'\<lparr>conversationHistory := hist\<rparr>)"
| "app_step s (AiResponseError payload) = s\<lparr>error := payload, isLoading := False\<rparr>"
| "app_step s (AiResponseCancelled payload) = s\<lparr>isLoading := False\<rparr>"
| "app_step s HandleSubmit =
     (if trim (message s) \<noteq> [] then s\<lparr>isLoading := True, error := [], response := []\<rparr> else s)"
| "app_step s (AskAiStreamRejected err) = s\<lparr>error := err, isLoading := False\<rparr>"
| "app_step s (HandleStopSettled ok) = s\<lparr>isLoading := False\<rparr>"

definition app_run :: "app_state \<Rightarrow> app_action list \<Rightarrow> app_state" where
  "app_run s as = foldl app_step s as"

definition initial_app_state :: app_state where
  "initial_app_state =
     \<lparr>message = [], isLoading = False, response = [], error = [], conversationHistory = []\<rparr>"

section \<open>The client: the response reconstructor\<close>

subsection \<open>Character classes\<close>

definition is_alpha :: "nat \<Rightarrow> bool" where
  "is_alpha c = ((65 \<le> c \<and> c \<le> 90) \<or> (97 \<le> c \<and> c \<le> 122))"

definition is_upper :: "nat \<Rightarrow> bool" where
  "is_upper c = (65 \<le> c \<and> c \<le> 90)"

text \<open>\<open>[.!?]\<close>\<close>

definition is_stop :: "nat \<Rightarrow> bool" where
  "is_stop c = (c = 46 \<or> c = 33 \<or> c = 63)"

text \<open>What \<open>.\<close> does not match: the line terminators.\<close>

definition is_line_terminator :: "nat \<Rightarrow> bool" where
  "is_line_terminator c = (c = 10 \<or> c = 13 \<or> c = 8232 \<or> c = 8233)"

subsection \<open>normalizeStreamingText\<close>

text \<open>
  Two replacements of single code units by a space: \<open>[\\u200b\\u200c\\u200d\\u2060]\<close>,
  then \<open>[\\u00a0\\u202f]\<close>. An empty text is returned as it is.
\<close>

definition zero_width :: "nat \<Rightarrow> bool" where
  "zero_width c = (c = 8203 \<or> c = 8204 \<or> c = 8205 \<or> c = 8288)"

definition non_breaking :: "nat \<Rightarrow> bool" where
  "non_breaking c = (c = 160 \<or> c = 8239)"

definition normalizeStreamingText :: "jsstring \<Rightarrow> jsstring" where
  "normalizeStreamingText text =
     (if text = [] then text
      else map (\<lambda>c. if non_breaking c then 32 else c)
             (map (\<lambda>c. if zero_width c then 32 else c) text))"

subsection \<open>cleanCurrencyAndPercent\<close>

text \<open>
  Each \<open>replace\<close> with a global regular expression scans the text from the left: where
  the expression matches, the replacement is written and the scan goes on after the
  match; where it does not, one code unit is copied. The quantifiers are greedy, and in
  each of these expressions a shorter choice cannot make a failed match succeed, so a
  match at a position is decided by the longest runs.

  \<open>/\\$(\\d+\\.?\\d*)/g\<close> with \<open>"$$$1"\<close>: a dollar sign and the number after it, written back as a
  dollar sign and the number. \<open>dollar_number cs\<close> is the length of the group in \<open>cs\<close>.
\<close>

definition dollar_number :: "jsstring \<Rightarrow> nat option" where
  "dollar_number cs =
     (let d1 = takeWhile is_digit cs; r1 = drop (length d1) cs in
      if d1 = [] then None
      else (case r1 of
              [] \<Rightarrow> Some (length d1)
            | p # r2 \<Rightarrow> if p = 46 then Some (length d1 + 1 + length (takeWhile is_digit r2))
                        else Some (length d1)))"

function fix_currency :: "jsstring \<Rightarrow> jsstring" where
  "fix_currency [] = []"
| "fix_currency (c # cs) =
     (if c = 36 then
        (case dollar_number cs of
           None \<Rightarrow> c # fix_currency cs
         | Some n \<Rightarrow> [36] @ take n cs @ fix_currency (drop n cs))
      else c # fix_currency cs)"
  by pat_completeness auto
termination
  by (relation "measure length") auto

text \<open>
  \<open>/(\\d+(?:\\.\\d+)?)\\s*%/g\<close> with \<open>"$1%"\<close>: a number, white space and a percent sign,
  written back without the white space. \<open>percent_match c cs\<close>, for a text \<open>c # cs\<close>, is the
  group and the number of code units of \<open>cs\<close> in the match.
\<close>

definition percent_match :: "nat \<Rightarrow> jsstring \<Rightarrow> (jsstring \<times> nat) option" where
  "percent_match c cs =
     (if \<not> is_digit c then None
      else
        (let d1 = takeWhile is_digit cs;
             r1 = drop (length d1) cs;
             frac = (case r1 of
                       [] \<Rightarrow> []
                     | p # r2 \<Rightarrow> if p = 46 \<and> takeWhile is_digit r2 \<noteq> []
                                 then p # takeWhile is_digit r2 else []);
             g = c # d1 @ frac;
             r3 = drop (length frac) r1;
             ws = takeWhile is_space r3
         in (case drop (length ws) r3 of
               [] \<Rightarrow> None
             | q # r4 \<Rightarrow> if q = 37 then Some (g, length d1 + length frac + length ws + 1)
                         else None)))"

function fix_percent :: "jsstring \<Rightarrow> jsstring" where
  "fix_percent [] = []"
| "fix_percent (c # cs) =
     (case percent_match c cs of
        None \<Rightarrow> c # fix_percent cs
      | Some (g, n) \<Rightarrow> g @ [37] @ fix_percent (drop n cs))"
  by pat_completeness auto
termination
  by (relation "measure length") auto

text \<open>
  \<open>/(\\d+)([A-Za-z])/g\<close> with \<open>"$1 $2"\<close>: a space between a run of digits and the letter
  after it.
\<close>

function space_after_number :: "jsstring \<Rightarrow> jsstring" where
  "space_after_number [] = []"
| "space_after_number (c # cs) =
     (if is_digit c then
        (let d = takeWhile is_digit cs in
         (case drop (length d) cs of
            [] \<Rightarrow> c # space_after_number cs
          | a # r \<Rightarrow> if is_alpha a
                      then (c # d) @ [32, a] @ space_after_number (drop (Suc (length d)) cs)
                      else c # space_after_number cs))
      else c # space_after_number cs)"
  by pat_completeness auto
termination
  by (relation "measure length") auto

text \<open>\<open>/(\\d+)\\.(\\d+)/g\<close> with \<open>"$1.$2"\<close>: a decimal number, written back as it is.\<close>

definition decimal_match :: "jsstring \<Rightarrow> nat option" where
  "decimal_match cs =
     (let d1 = takeWhile is_digit cs in
      (case drop (length d1) cs of
         [] \<Rightarrow> None
       | p # r \<Rightarrow> if p = 46 \<and> takeWhile is_digit r \<noteq> []
                   then Some (length d1 + 1 + length (takeWhile is_digit r)) else None))"

function fix_decimal :: "jsstring \<Rightarrow> jsstring" where
  "fix_decimal [] = []"
| "fix_decimal (c # cs) =
     (if is_digit c then
        (case decimal_match cs of
           None \<Rightarrow> c # fix_decimal cs
         | Some n \<Rightarrow> (c # take n cs) @ fix_decimal (drop n cs))
      else c # fix_decimal cs)"
  by pat_completeness auto
termination
  by (relation "measure length") auto

text \<open>\<open>/\\s+/g\<close> with \<open>" "\<close>: every run of white space becomes one space.\<close>

function collapse_spaces :: "jsstring \<Rightarrow> jsstring" where
  "collapse_spaces [] = []"
| "collapse_spaces (c # cs) =
     (if is_space c then 32 # collapse_spaces (drop (length (takeWhile is_space cs)) cs)
      else c # collapse_spaces cs)"
  by pat_completeness auto
termination
  by (relation "measure length") auto

text \<open>\<open>/([.!?])([A-Z])/g\<close> with \<open>"$1 $2"\<close>: a space between a full stop and a capital.\<close>

fun space_after_stop :: "jsstring \<Rightarrow> jsstring" where
  "space_after_stop (p # u # cs) =
     (if is_stop p \<and> is_upper u then p # 32 # u # space_after_stop cs
      else p # space_after_stop (u # cs))"
| "space_after_stop cs = cs"

definition cleanCurrencyAndPercent :: "jsstring \<Rightarrow> jsstring" where
  "cleanCurrencyAndPercent text =
     (if text = [] then text
      else space_after_stop (collapse_spaces (fix_decimal (space_after_number
             (fix_percent (fix_currency text))))))"

text \<open>What \<open>formatResponse\<close> returns when it recovers no structure.\<close>

definition cleanup :: "jsstring \<Rightarrow> jsstring" where
  "cleanup text = cleanCurrencyAndPercent (normalizeStreamingText text)"

subsection \<open>The two functions on a value\<close>

text \<open>
  \<open>cleanCurrencyAndPercent(normalizeStreamingText(v))\<close> for a value of the parsed
  document, as the text that a template literal then shows. Both functions return a
  falsy value as it is (the empty string, \<open>null\<close>, \<open>false\<close>, a number that is zero); on a
  truthy value that is not a string, \<open>text.replace\<close> is not a function.
\<close>

fun clean_text :: "jsval \<Rightarrow> js_error + jsstring" where
  "clean_text (JStr s) = Inr (cleanup s)"
| "clean_text JUndefined = Inr (js ''undefined'')"
| "clean_text JNull = Inr (js ''null'')"
| "clean_text (JBool b) =
     (if b then Inl (TypeError ''text.replace is not a function'') else Inr (js ''false''))"
| "clean_text (JNum m e) =
     (if num_is_zero m e then Inr (js ''0'') else Inl (TypeError ''text.replace is not a function''))"
| "clean_text v = Inl (TypeError ''text.replace is not a function'')"

text \<open>\<open>xs.map(f)\<close> for an \<open>f\<close> that may throw: the first exception ends it.\<close>

fun map_clean :: "jsval list \<Rightarrow> js_error + jsstring list" where
  "map_clean [] = Inr []"
| "map_clean (x # xs) =
     (case clean_text x of
        Inl e \<Rightarrow> Inl e
      | Inr y \<Rightarrow> (case map_clean xs of Inl e \<Rightarrow> Inl e | Inr ys \<Rightarrow> Inr (y # ys)))"

text \<open>\<open>xs.join("\\n")\<close> on strings.\<close>

fun join_lines :: "jsstring list \<Rightarrow> jsstring" where
  "join_lines [] = []"
| "join_lines [x] = x"
| "join_lines (x # xs) = x @ [10] @ join_lines xs"

definition bullet_list :: "jsstring list \<Rightarrow> jsstring" where
  "bullet_list points = join_lines (map (\<lambda>p. js ''- '' @ p) points)"

subsection \<open>The structured branch\<close>

text \<open>
  The body of \<open>if (parsed.summary && parsed.details && parsed.key_points &&
  parsed.status)\<close>: the summary and the details are cleaned, \<open>key_points.map\<close> cleans each
  point (and is not a function unless \<open>key_points\<close> is an array), and the three are laid
  out as a heading, a paragraph and a list.
\<close>

definition render_structured :: "jsval \<Rightarrow> jsval \<Rightarrow> jsval \<Rightarrow> js_error + jsstring" where
  "render_structured summary details key_points =
     (case clean_text summary of
        Inl e \<Rightarrow> Inl e
      | Inr s \<Rightarrow>
          (case clean_text details of
             Inl e \<Rightarrow> Inl e
           | Inr d \<Rightarrow>
               (case key_points of
                  JArr points \<Rightarrow>
                    (case map_clean points of
                       Inl e \<Rightarrow> Inl e
                     | Inr ps \<Rightarrow>
                         Inr (js ''## '' @ s @ [10, 10] @ d @ [10, 10]
                              @ js ''### Key Points'' @ [10, 10] @ bullet_list ps))
                | _ \<Rightarrow> Inl (TypeError ''parsed.key_points.map is not a function''))))"

subsection \<open>The text between the braces\<close>

text \<open>\<open>s.indexOf(c)\<close> and \<open>s.lastIndexOf(c)\<close>, with \<open>None\<close> for -1.\<close>

fun indexOf :: "jsstring \<Rightarrow> nat \<Rightarrow> nat option" where
  "indexOf [] c = None"
| "indexOf (x # xs) c =
     (if x = c then Some 0 else (case indexOf xs c of None \<Rightarrow> None | Some i \<Rightarrow> Some (Suc i)))"

fun lastIndexOf :: "jsstring \<Rightarrow> nat \<Rightarrow> nat option" where
  "lastIndexOf [] c = None"
| "lastIndexOf (x # xs) c =
     (case lastIndexOf xs c of
        Some i \<Rightarrow> Some (Suc i)
      | None \<Rightarrow> if x = c then Some 0 else None)"

text \<open>\<open>s.substring(i, j)\<close> for \<open>i \<le> j\<close>.\<close>

definition substring :: "jsstring \<Rightarrow> nat \<Rightarrow> nat \<Rightarrow> jsstring" where
  "substring s i j = take (j - i) (drop i s)"

text \<open>
  \<open>cleanResponse\<close>: the trimmed text, cut to run from its first \<open>{\<close> to its last \<open>}\<close>
  when both exist and the second comes later.
\<close>

definition json_candidate :: "jsstring \<Rightarrow> jsstring" where
  "json_candidate resp =
     (let cleanResponse = trim resp in
      (case (indexOf cleanResponse 123, lastIndexOf cleanResponse 125) of
         (Some jsonStart, Some jsonEnd) \<Rightarrow>
           if jsonStart < jsonEnd then substring cleanResponse jsonStart (jsonEnd + 1)
           else cleanResponse
       | _ \<Rightarrow> cleanResponse))"

subsection \<open>Extraction by pattern\<close>

text \<open>
  \<open>response.match(/"summary":\\s*"([^"]+)"/)\<close> and the same for \<open>details\<close>: the first
  position where the quoted key and a colon are followed by white space, a quote, at
  least one code unit that is not a quote, and a quote. \<open>field_at\<close> is the group of a
  match at the start of the text.
\<close>

definition field_at :: "jsstring \<Rightarrow> jsstring \<Rightarrow> jsstring option" where
  "field_at key s =
     (let lit = [34] @ key @ [34, 58] in
      if take (length lit) s \<noteq> lit then None
      else (case dropWhile is_space (drop (length lit) s) of
              [] \<Rightarrow> None
            | q # r \<Rightarrow>
                if q \<noteq> 34 then None
                else (let g = takeWhile (\<lambda>c. c \<noteq> 34) r in
                      if g = [] then None
                      else (case drop (length g) r of
                              [] \<Rightarrow> None
                            | q' # r' \<Rightarrow> Some g))))"

fun match_field :: "jsstring \<Rightarrow> jsstring \<Rightarrow> jsstring option" where
  "match_field key [] = field_at key []"
| "match_field key (c # cs) =
     (case field_at key (c # cs) of Some g \<Rightarrow> Some g | None \<Rightarrow> match_field key cs)"

text \<open>
  \<open>response.match(/"key_points":\\s*\\[(.*?)\\]/)\<close>: after the key, white space and \<open>[\<close>,
  the shortest run up to a \<open>]\<close>, which must be on the same line.
\<close>

definition key_points_at :: "jsstring \<Rightarrow> jsstring option" where
  "key_points_at s =
     (let lit = js ''\"key_points\":'' in
      if take (length lit) s \<noteq> lit then None
      else (case dropWhile is_space (drop (length lit) s) of
              [] \<Rightarrow> None
            | b # r \<Rightarrow>
                if b \<noteq> 91 then None
                else (let g = takeWhile (\<lambda>c. c \<noteq> 93 \<and> \<not> is_line_terminator c) r in
                      (case drop (length g) r of
                         [] \<Rightarrow> None
                       | e # r' \<Rightarrow> if e = 93 then Some g else None))))"

fun match_key_points :: "jsstring \<Rightarrow> jsstring option" where
  "match_key_points [] = key_points_at []"
| "match_key_points (c # cs) =
     (case key_points_at (c # cs) of Some g \<Rightarrow> Some g | None \<Rightarrow> match_key_points cs)"

text \<open>
  The points of the matched list: split at commas, trimmed, quotes removed, the empty
  ones dropped, the rest cleaned.
\<close>

definition extract_points :: "jsstring \<Rightarrow> jsstring list" where
  "extract_points g =
     map cleanup
       (filter (\<lambda>p. 0 < length p)
          (map (\<lambda>p. filter (\<lambda>c. c \<noteq> 34) (trim p)) (split_on 44 g)))"

text \<open>The \<open>catch\<close> block: \<open>None\<close> when it falls through to the final \<open>return\<close>.\<close>

definition manual_extraction :: "jsstring \<Rightarrow> jsstring option" where
  "manual_extraction resp =
     (case (match_field (js ''summary'') resp, match_field (js ''details'') resp) of
        (Some s, Some d) \<Rightarrow>
          (let formatted = js ''## '' @ cleanup s @ [10, 10] @ cleanup d in
           (case match_key_points resp of
              None \<Rightarrow> Some formatted
            | Some g \<Rightarrow>
                (let points = extract_points g in
                 if 0 < length points
                 then Some (formatted @ [10, 10] @ js ''### Key Points'' @ [10, 10]
                            @ bullet_list points)
                 else Some formatted)))
      | _ \<Rightarrow> None)"

subsection \<open>formatResponse\<close>

text \<open>
  The \<open>try\<close> block: \<open>Inl\<close> an exception (the SyntaxError of \<open>JSON.parse\<close>, or a
  TypeError); \<open>Inr (Some text)\<close> the structured text it returns; \<open>Inr None\<close> when the
  test on the four properties fails and control leaves the block.
\<close>

definition structured_attempt :: "jsstring \<Rightarrow> js_error + jsstring option" where
  "structured_attempt resp =
     (case JSON_parse (json_candidate resp) of
        None \<Rightarrow> Inl (SyntaxError ''Unexpected token'')
      | Some parsed \<Rightarrow>
          (case get_prop parsed (js ''summary'') of
             Inl e \<Rightarrow> Inl e
           | Inr summary \<Rightarrow>
               if truthy summary \<and> truthy (opt_prop parsed (js ''details''))
                  \<and> truthy (opt_prop parsed (js ''key_points''))
                  \<and> truthy (opt_prop parsed (js ''status''))
               then (case render_structured summary (opt_prop parsed (js ''details''))
                            (opt_prop parsed (js ''key_points'')) of
                       Inl e \<Rightarrow> Inl e
                     | Inr text \<Rightarrow> Inr (Some text))
               else Inr None))"

definition formatResponse :: "jsstring \<Rightarrow> jsstring" where
  "formatResponse resp =
     (case structured_attempt resp of
        Inr (Some text) \<Rightarrow> text
      | Inr None \<Rightarrow> cleanup resp
      | Inl e \<Rightarrow>
          (case manual_extraction resp of
             Some text \<Rightarrow> text
           | None \<Rightarrow> cleanup resp))"

subsection \<open>A well-formed structured document\<close>

text \<open>
  A parsed document of the expected shape: an object whose \<open>summary\<close> and \<open>details\<close> are
  non-empty strings, whose \<open>key_points\<close> is an array of strings, and whose \<open>status\<close> is
  truthy.
\<close>

fun is_text :: "jsval \<Rightarrow> bool" where
  "is_text (JStr s) = (s \<noteq> [])"
| "is_text v = False"

fun is_string :: "jsval \<Rightarrow> bool" where
  "is_string (JStr s) = True"
| "is_string v = False"

fun is_string_array :: "jsval \<Rightarrow> bool" where
  "is_string_array (JArr xs) = list_all is_string xs"
| "is_string_array v = False"

fun well_formed :: "jsval \<Rightarrow> bool" where
  "well_formed (JObj kvs) =
     (is_text (opt_prop (JObj kvs) (js ''summary''))
      \<and> is_text (opt_prop (JObj kvs) (js ''details''))
      \<and> is_string_array (opt_prop (JObj kvs) (js ''key_points''))
      \<and> truthy (opt_prop (JObj kvs) (js ''status'')))"
| "well_formed v = False"

text \<open>The layout of a well-formed document: a heading, a paragraph, a list.\<close>

fun string_of :: "jsval \<Rightarrow> jsstring" where
  "string_of (JStr s) = s"
| "string_of v = []"

fun elements_of :: "jsval \<Rightarrow> jsval list" where
  "elements_of (JArr xs) = xs"
| "elements_of v = []"

definition structured_text :: "jsval \<Rightarrow> jsstring" where
  "structured_text parsed =
     js ''## '' @ cleanup (string_of (opt_prop parsed (js ''summary''))) @ [10, 10]
     @ cleanup (string_of (opt_prop parsed (js ''details''))) @ [10, 10]
     @ js ''### Key Points'' @ [10, 10]
     @ bullet_list (map (\<lambda>p. cleanup (string_of p))
                      (elements_of (opt_prop parsed (js ''key_points''))))"

text \<open>Whether \<open>formatResponse\<close> recovers a structure, by parsing or by pattern.\<close>

definition recovers_structure :: "jsstring \<Rightarrow> bool" where
  "recovers_structure resp =
     (case structured_attempt resp of
        Inr (Some text) \<Rightarrow> True
      | Inr None \<Rightarrow> False
      | Inl e \<Rightarrow> manual_extraction resp \<noteq> None)"

subsection \<open>Shapes of a text\<close>

text \<open>
  The shapes that the four replacements which change a text look for, as predicates:
  a digit followed by white space and a percent sign; a digit followed by a letter; a
  full stop followed by a capital; and, for the white space, that every white-space code
  unit is a space with no white space after it.
\<close>

fun hd_is :: "(nat \<Rightarrow> bool) \<Rightarrow> jsstring \<Rightarrow> bool" where
  "hd_is P [] = False"
| "hd_is P (c # cs) = P c"

definition spaces_then_percent :: "jsstring \<Rightarrow> bool" where
  "spaces_then_percent s = (hd_is is_space s \<and> hd_is (\<lambda>c. c = 37) (dropWhile is_space s))"

fun spaced_percent :: "jsstring \<Rightarrow> bool" where
  "spaced_percent [] = False"
| "spaced_percent (c # cs) = ((is_digit c \<and> spaces_then_percent cs) \<or> spaced_percent cs)"

fun digit_letter :: "jsstring \<Rightarrow> bool" where
  "digit_letter [] = False"
| "digit_letter (c # cs) = ((is_digit c \<and> hd_is is_alpha cs) \<or> digit_letter cs)"

fun stop_capital :: "jsstring \<Rightarrow> bool" where
  "stop_capital [] = False"
| "stop_capital (c # cs) = ((is_stop c \<and> hd_is is_upper cs) \<or> stop_capital cs)"

fun single_spaces :: "jsstring \<Rightarrow> bool" where
  "single_spaces [] = True"
| "single_spaces (c # cs) =
     ((if is_space c then c = 32 \<and> \<not> hd_is is_space cs else True) \<and> single_spaces cs)"

definition plain_chars :: "jsstring \<Rightarrow> bool" where
  "plain_chars s = list_all (\<lambda>c. \<not> zero_width c \<and> \<not> non_breaking c) s"
section \<open>Splitting a text into chunks\<close>

lemma split_on_nonempty: "split_on sep s \<noteq> []"
  by (induction s) (auto split: list.splits)

lemma sendChunk_past: "length words \<le> i \<Longrightarrow> sendChunk mdl words i = [Write Done, End]"
  by (subst sendChunk.simps) simp

lemma chunk_texts_sendChunk_last:
  "chunk_texts (sendChunk mdl (pre @ [w]) (length pre)) = [w]"
proof -
  have "sendChunk mdl (pre @ [w]) (length pre)
        = Write (Chunk (JStr w) mdl ''gemini'') # sendChunk mdl (pre @ [w]) (length pre + 1)"
    by (subst sendChunk.simps) simp
  then show ?thesis
    by (simp add: sendChunk_past)
qed

lemma chunk_texts_sendChunk:
  "ws \<noteq> [] \<Longrightarrow>
   concat (chunk_texts (sendChunk mdl (pre @ ws) (length pre)))
     = concat (map (\<lambda>w. w @ js '' '') (butlast ws)) @ last ws"
proof (induction ws arbitrary: pre)
  case Nil
  then show ?case by simp
next
  case (Cons w ws)
  show ?case
  proof (cases "ws = []")
    case True
    then show ?thesis
      using chunk_texts_sendChunk_last [of mdl pre w] by simp
  next
    case False
    have step: "sendChunk mdl (pre @ w # ws) (length pre)
          = Write (Chunk (JStr (w @ js '' '')) mdl ''gemini'')
            # sendChunk mdl ((pre @ [w]) @ ws) (length (pre @ [w]))"
      using False by (subst sendChunk.simps) (simp add: nth_append)
    show ?thesis
      using Cons.IH [OF False, of "pre @ [w]"] False by (simp add: step)
  qed
qed

lemma join_split_on:
  "concat (map (\<lambda>w. w @ [sep]) (butlast (split_on sep s))) @ last (split_on sep s) = s"
proof (induction s)
  case Nil
  then show ?case by simp
next
  case (Cons c s)
  obtain w ws where sp: "split_on sep s = w # ws"
    using split_on_nonempty [of sep s] by (cases "split_on sep s") auto
  show ?case
    using Cons sp by (cases ws) auto
qed

lemma js_space: "js '' '' = [32]"
  by (simp add: js_def)

lemma sendChunk_roundtrip:
  "concat (chunk_texts (sendChunk mdl (split_on 32 s) 0)) = s"
  using chunk_texts_sendChunk [of "split_on 32 s" mdl "[]"] split_on_nonempty [of 32 s]
        join_split_on [of 32 s]
  by (simp add: js_space)

lemma chunk_texts_append: "chunk_texts (as @ bs) = chunk_texts as @ chunk_texts bs"
  by (induction as rule: chunk_texts.induct) auto

lemma chunk_texts_stream_headers: "chunk_texts stream_headers = []"
  by (simp add: stream_headers_def)

text \<open>
  C2. In streaming mode, when the upstream call of the Gemini endpoint succeeds with at
  least one candidate, the texts of the chunk events written, concatenated in order, are
  the upstream text: splitting on single spaces and putting the space back on every word
  but the last loses nothing. This holds for every upstream text, the empty one included.
\<close>

theorem gemini_stream_chunks_roundtrip:
  assumes "truthy (model body)" and "truthy (prompt body)" and "truthy (stream body)"
    and "\<not> unset api_key" and "has_candidates d"
  shows "concat (chunk_texts (actions (gemini_handler api_key body (Resolved d))))
           = first_text d"
proof -
  have s: "stream body \<noteq> JUndefined"
    using assms(3) by auto
  have "actions (gemini_handler api_key body (Resolved d))
          = stream_headers @ sendChunk (model body) (split_on 32 (first_text d)) 0"
    using assms s by (simp add: gemini_handler_def gemini_try_def default_to_def Let_def)
  then show ?thesis
    by (simp add: chunk_texts_append chunk_texts_stream_headers sendChunk_roundtrip)
qed

theorem gemini_stream_chunks_roundtrip_witness:
  "truthy (JStr (js ''gemini-1.5-flash'')) \<and> truthy (JStr (js ''hi'')) \<and> truthy (JBool True)
   \<and> \<not> unset (Some (js ''key''))
   \<and> has_candidates (GeminiData (Some [Candidate (Some (Content (Some [Part (Some (js ''a  b c''))])))]))
   \<and> concat (chunk_texts (actions (gemini_handler (Some (js ''key''))
          \<lparr>model = JStr (js ''gemini-1.5-flash''), prompt = JStr (js ''hi''),
           temperature = JUndefined, maxTokens = JUndefined, stream = JBool True\<rparr>
          (Resolved (GeminiData (Some [Candidate (Some (Content (Some [Part (Some (js ''a  b c''))])))]))))))
       = js ''a  b c''"
  using gemini_stream_chunks_roundtrip
    [of "\<lparr>model = JStr (js ''gemini-1.5-flash''), prompt = JStr (js ''hi''),
          temperature = JUndefined, maxTokens = JUndefined, stream = JBool True\<rparr>"
        "Some (js ''key'')"
        "GeminiData (Some [Candidate (Some (Content (Some [Part (Some (js ''a  b c''))])))])"]
  by (simp add: js_def or_else_def unset_def has_candidates_def first_text_def)

section \<open>Admission by the quota limiter\<close>

lemma admit_within:
  "\<not> expired now w \<Longrightarrow>
   admit now k w =
     ((case countsByKey w k of None \<Rightarrow> 1 | Some n \<Rightarrow> n + 1) \<le> maxRequests w,
      w\<lparr>countsByKey := (countsByKey w)(k \<mapsto> (case countsByKey w k of None \<Rightarrow> 1 | Some n \<Rightarrow> n + 1))\<rparr>)"
  by (simp add: admit_def Let_def)

lemma admit_expired: "expired now w \<Longrightarrow> admit now k w = admit now k (reset_window now w)"
  by (simp add: admit_def Let_def reset_window_def expired_def)

lemma decisions_general:
  "\<forall>c \<in> set cs. \<not> expired (fst c) w \<Longrightarrow>
   decisions_of k cs (admit_all cs w)
     = replicate (min (length (filter (\<lambda>c. snd c = k) cs)) (maxRequests w - count_of w k)) True
       @ replicate (length (filter (\<lambda>c. snd c = k) cs) - (maxRequests w - count_of w k)) False"
proof (induction cs arbitrary: w)
  case Nil
  then show ?case by simp
next
  case (Cons c cs)
  obtain a w' where aw: "admit (fst c) (snd c) w = (a, w')"
    by (cases "admit (fst c) (snd c) w")
  have ne: "\<not> expired (fst c) w" using Cons.prems by simp
  have w': "w' = w\<lparr>countsByKey := (countsByKey w)(snd c \<mapsto> Suc (count_of w (snd c)))\<rparr>"
    and a: "a = (Suc (count_of w (snd c)) \<le> maxRequests w)"
    using aw admit_within [OF ne, of "snd c"] by (auto simp: count_of_def split: option.splits)
  have still: "\<forall>c \<in> set cs. \<not> expired (fst c) w'"
    using Cons.prems by (simp add: w' expired_def)
  have mx: "maxRequests w' = maxRequests w" by (simp add: w')
  note IH = Cons.IH [OF still]
  show ?case
  proof (cases "snd c = k")
    case True
    have cnt: "count_of w' k = Suc (count_of w k)"
      using True by (simp add: w' count_of_def)
    have aw: "admit (fst c) k w = (a, w')" using aw True by simp
    show ?thesis
    proof (cases "Suc (count_of w k) \<le> maxRequests w")
      case le: True
      then have "maxRequests w - count_of w k = Suc (maxRequests w - Suc (count_of w k))" by simp
      then show ?thesis
        using True le a IH by (simp add: aw cnt mx)
    next
      case gt: False
      then have z: "maxRequests w - count_of w k = 0" "maxRequests w - Suc (count_of w k) = 0" by simp_all
      show ?thesis
        using True gt a IH by (simp add: aw cnt mx z)
    qed
  next
    case False
    have cnt: "count_of w' k = count_of w k"
      using False by (simp add: w' count_of_def)
    show ?thesis
      using False IH by (simp add: aw cnt mx)
  qed
qed

lemma decisions_fresh:
  assumes "countsByKey w = Map.empty" and "\<forall>c \<in> set cs. \<not> expired (fst c) w"
  shows "decisions_of k cs (admit_all cs w)
     = replicate (min (length (filter (\<lambda>c. snd c = k) cs)) (maxRequests w)) True
       @ replicate (length (filter (\<lambda>c. snd c = k) cs) - maxRequests w) False"
  using decisions_general [OF assms(2), of k] assms(1) by (simp add: count_of_def)

lemma admit_all_expired:
  "expired t0 w \<Longrightarrow> admit_all ((t0, k0) # cs) w = admit_all ((t0, k0) # cs) (reset_window t0 w)"
  by (simp add: admit_expired)

lemma decisions_after_expiry:
  assumes "expired t0 w" and "0 < windowDurationMs w"
    and "\<forall>c \<in> set cs. fst c - t0 < windowDurationMs w"
  shows "decisions_of k ((t0, k0) # cs) (admit_all ((t0, k0) # cs) w)
     = replicate (min (length (filter (\<lambda>c. snd c = k) ((t0, k0) # cs))) (maxRequests w)) True
       @ replicate (length (filter (\<lambda>c. snd c = k) ((t0, k0) # cs)) - maxRequests w) False"
proof -
  let ?r = "reset_window t0 w"
  have "\<forall>c \<in> set ((t0, k0) # cs). \<not> expired (fst c) ?r"
    using assms(2,3) by (auto simp: expired_def reset_window_def)
  moreover have "countsByKey ?r = Map.empty" by (simp add: reset_window_def)
  ultimately have "decisions_of k ((t0, k0) # cs) (admit_all ((t0, k0) # cs) ?r)
     = replicate (min (length (filter (\<lambda>c. snd c = k) ((t0, k0) # cs))) (maxRequests ?r)) True
       @ replicate (length (filter (\<lambda>c. snd c = k) ((t0, k0) # cs)) - maxRequests ?r) False"
    by (rule decisions_fresh [rotated])
  then show ?thesis
    using admit_all_expired [OF assms(1), of k0 cs] by (simp add: reset_window_def)
qed

lemma admit_route_conj:
  "(fst (admit_route now k r ls) = None)
     = (fst (admit now k (general_window ls)) \<and> fst (admit now k (provider_window r ls)))"
  by (simp add: admit_route_def split: prod.splits)

lemma limiter_options:
  "maxRequests (general_window (new_limiters t)) = 100
   \<and> maxRequests (gemini_window (new_limiters t)) = 50
   \<and> maxRequests (perplexity_window (new_limiters t)) = 30
   \<and> windowDurationMs (general_window (new_limiters t)) = 900000
   \<and> windowDurationMs (gemini_window (new_limiters t)) = 900000
   \<and> windowDurationMs (perplexity_window (new_limiters t)) = 900000"
  by (simp add: new_limiters_def new_window_def generalRateLimit_def geminiRateLimit_def
        perplexityRateLimit_def createRateLimit_def)

text \<open>
  C4. For every identity \<open>k\<close> and every window: in a run of calls that all fall inside a
  window that starts empty, and in a run whose first call finds the window expired and
  whose later calls fall inside the window this call opens, the first \<open>maxRequests\<close> calls
  of \<open>k\<close> are admitted and every later one is refused, whatever other identities do in
  between. A request reaches the handler of a route exactly when the general limiter and
  the limiter of the route both admit it. The three limiters are configured with 100, 50
  and 30 requests per 900000 ms.
\<close>

theorem quota_window_admission:
  "(countsByKey w = Map.empty \<and> (\<forall>c \<in> set cs. \<not> expired (fst c) w) \<longrightarrow>
      decisions_of k cs (admit_all cs w)
        = replicate (min (length (filter (\<lambda>c. snd c = k) cs)) (maxRequests w)) True
          @ replicate (length (filter (\<lambda>c. snd c = k) cs) - maxRequests w) False)
   \<and> (expired t0 w \<and> 0 < windowDurationMs w \<and> (\<forall>c \<in> set cs. fst c - t0 < windowDurationMs w) \<longrightarrow>
      decisions_of k ((t0, k0) # cs) (admit_all ((t0, k0) # cs) w)
        = replicate (min (length (filter (\<lambda>c. snd c = k) ((t0, k0) # cs))) (maxRequests w)) True
          @ replicate (length (filter (\<lambda>c. snd c = k) ((t0, k0) # cs)) - maxRequests w) False)
   \<and> ((fst (admit_route now k r ls) = None)
        = (fst (admit now k (general_window ls)) \<and> fst (admit now k (provider_window r ls))))
   \<and> maxRequests (general_window (new_limiters t)) = 100
   \<and> maxRequests (gemini_window (new_limiters t)) = 50
   \<and> maxRequests (perplexity_window (new_limiters t)) = 30
   \<and> windowDurationMs (general_window (new_limiters t)) = 900000
   \<and> windowDurationMs (gemini_window (new_limiters t)) = 900000
   \<and> windowDurationMs (perplexity_window (new_limiters t)) = 900000"
  using decisions_fresh [of w cs k] decisions_after_expiry [of t0 w cs k k0]
        admit_route_conj [of now k r ls] limiter_options [of t]
  by blast

theorem quota_window_admission_witness:
  "countsByKey (gemini_window (new_limiters 0)) = Map.empty
   \<and> list_all (\<lambda>c. \<not> expired (fst c) (gemini_window (new_limiters 0)))
         (replicate 51 (5, keyGenerator (js ''1.2.3.4'') (Some (js ''curl''))))
   \<and> decisions_of (keyGenerator (js ''1.2.3.4'') (Some (js ''curl'')))
        (replicate 51 (5, keyGenerator (js ''1.2.3.4'') (Some (js ''curl''))))
        (admit_all (replicate 51 (5, keyGenerator (js ''1.2.3.4'') (Some (js ''curl''))))
           (gemini_window (new_limiters 0)))
      = replicate 50 True @ [False]
   \<and> expired 900000 (gemini_window (new_limiters 0))
   \<and> (0::int) < windowDurationMs (gemini_window (new_limiters 0))
   \<and> list_all (\<lambda>c. fst c - 900000 < windowDurationMs (gemini_window (new_limiters 0)))
         (replicate 50 (900001, keyGenerator (js ''1.2.3.4'') (Some (js ''curl''))))
   \<and> decisions_of (keyGenerator (js ''1.2.3.4'') (Some (js ''curl'')))
        ((900000, keyGenerator (js ''1.2.3.4'') (Some (js ''curl'')))
         # replicate 50 (900001, keyGenerator (js ''1.2.3.4'') (Some (js ''curl''))))
        (admit_all
           ((900000, keyGenerator (js ''1.2.3.4'') (Some (js ''curl'')))
            # replicate 50 (900001, keyGenerator (js ''1.2.3.4'') (Some (js ''curl''))))
           (gemini_window (new_limiters 0)))
      = replicate 50 True @ [False]"
proof -
  let ?w = "gemini_window (new_limiters 0)"
  let ?k = "keyGenerator (js ''1.2.3.4'') (Some (js ''curl''))"
  let ?cs1 = "replicate 51 (5::int, ?k)"
  let ?cs2 = "replicate 50 (900001::int, ?k)"
  have w: "countsByKey ?w = Map.empty" "windowDurationMs ?w = 900000" "maxRequests ?w = 50"
    "windowStartTime ?w = 0"
    by (simp_all add: new_limiters_def new_window_def geminiRateLimit_def createRateLimit_def)
  have h1: "\<forall>c \<in> set ?cs1. \<not> expired (fst c) ?w"
    by (simp add: expired_def w)
  have h2: "expired 900000 ?w"
    by (simp add: expired_def w)
  have h3: "\<forall>c \<in> set ?cs2. fst c - 900000 < windowDurationMs ?w"
    by (simp add: w)
  have h4: "0 < windowDurationMs ?w"
    by (simp add: w)
  have "decisions_of ?k ?cs1 (admit_all ?cs1 ?w)
      = replicate (min (length (filter (\<lambda>c. snd c = ?k) ?cs1)) (maxRequests ?w)) True
        @ replicate (length (filter (\<lambda>c. snd c = ?k) ?cs1) - maxRequests ?w) False"
    by (rule quota_window_admission
          [where w = ?w and cs = ?cs1 and k = ?k and ?t0.0 = 900000 and ?k0.0 = ?k and now = 0
             and r = GeminiRoute and ls = "new_limiters 0" and t = 0,
           THEN conjunct1, THEN mp])
       (use w(1) h1 in blast)
  then have d1: "decisions_of ?k ?cs1 (admit_all ?cs1 ?w) = replicate 50 True @ [False]"
    by (simp add: w)
  have "decisions_of ?k ((900000, ?k) # ?cs2) (admit_all ((900000, ?k) # ?cs2) ?w)
      = replicate (min (length (filter (\<lambda>c. snd c = ?k) ((900000, ?k) # ?cs2))) (maxRequests ?w)) True
        @ replicate (length (filter (\<lambda>c. snd c = ?k) ((900000, ?k) # ?cs2)) - maxRequests ?w) False"
    by (rule quota_window_admission
          [where w = ?w and cs = ?cs2 and k = ?k and ?t0.0 = 900000 and ?k0.0 = ?k and now = 0
             and r = GeminiRoute and ls = "new_limiters 0" and t = 0,
           THEN conjunct2, THEN conjunct1, THEN mp])
       (use h2 h3 h4 in blast)
  then have d2: "decisions_of ?k ((900000, ?k) # ?cs2) (admit_all ((900000, ?k) # ?cs2) ?w)
      = replicate 50 True @ [False]"
    by (simp add: w)
  show ?thesis
    using w(1) h1 h2 h3 h4 d1 d2 by (simp only: list_all_iff)
qed

section \<open>The client after a local cancel\<close>

lemma app_run_chunks:
  "app_run s (map AiResponseChunk ps) = s\<lparr>response := response s @ concat ps\<rparr>"
  unfolding app_run_def
  by (induction ps arbitrary: s) simp_all

lemma app_run_append: "app_run s (as @ bs) = app_run (app_run s as) bs"
  by (simp add: app_run_def)

text \<open>
  C9, as the claim states it, fails. A prompt is submitted, two chunks arrive, the user
  stops the stream and \<open>stop_streaming\<close> settles, and a third chunk arrives: the buffer,
  which held the two chunks after the stop, holds three after the late chunk.
\<close>

theorem late_chunk_is_appended:
  "response (app_run (initial_app_state\<lparr>message := js ''hi''\<rparr>)
      [HandleSubmit, AiResponseChunk (js ''a''), AiResponseChunk (js ''b''),
       HandleStopSettled True]) = js ''ab''
   \<and> response (app_run (initial_app_state\<lparr>message := js ''hi''\<rparr>)
      [HandleSubmit, AiResponseChunk (js ''a''), AiResponseChunk (js ''b''),
       HandleStopSettled True, AiResponseChunk (js ''c'')]) = js ''abc''"
  by (simp add: app_run_def initial_app_state_def js_def trim_def is_space_def)

text \<open>
  C9, amended. After \<open>handleStop\<close> has settled, the chunk events that arrive do not reopen
  the loading state; the listener has no guard, so the text of each is appended to the
  response buffer, in arrival order.
\<close>

theorem chunks_after_stop:
  "isLoading (app_run (app_step s (HandleStopSettled ok)) (map AiResponseChunk ps)) = False
   \<and> response (app_run (app_step s (HandleStopSettled ok)) (map AiResponseChunk ps))
       = response s @ concat ps"
  by (simp add: app_run_chunks)

section \<open>The handlers\<close>

lemma stream_not_in_catch_scope: "''stream'' \<notin> set catch_scope"
  by (simp add: catch_scope_def handler_params_def module_scope_def)

lemma gemini_catch_throws: "gemini_catch catch_scope strm e = Inl (ReferenceError ''stream'')"
  by (simp add: gemini_catch_def stream_not_in_catch_scope)

lemma perplexity_catch_throws:
  "perplexity_catch catch_scope strm e = Inl (ReferenceError ''stream'')"
  by (simp add: perplexity_catch_def stream_not_in_catch_scope)

lemma gemini_handler_missing:
  "\<not> truthy (model body) \<or> \<not> truthy (prompt body) \<Longrightarrow>
   gemini_handler api_key body upstream =
     \<lparr>calls = [],
      actions = [Status 400,
                 Json (ErrorBody ''Missing required fields: model and prompt are required'' None)],
      thrown = None\<rparr>"
  by (auto simp: gemini_handler_def gemini_try_def Let_def)

lemma perplexity_handler_missing:
  "\<not> truthy (model body) \<or> \<not> truthy (prompt body) \<Longrightarrow>
   perplexity_handler api_key body upstream_stream upstream_plain =
     \<lparr>calls = [],
      actions = [Status 400,
                 Json (ErrorBody ''Missing required fields: model and prompt are required'' None)],
      thrown = None\<rparr>"
  by (auto simp: perplexity_handler_def perplexity_try_def Let_def)

text \<open>
  C3. When \<open>model\<close> or \<open>prompt\<close> is falsy in the request body (absent, or the empty
  string), the handler of either endpoint answers 400 with the error body and makes no
  upstream call, whatever the upstream would have answered.
\<close>

theorem missing_fields_rejected:
  assumes "\<not> truthy (model body) \<or> \<not> truthy (prompt body)"
  shows "gemini_handler api_key body upstream =
           \<lparr>calls = [],
            actions = [Status 400,
                       Json (ErrorBody ''Missing required fields: model and prompt are required'' None)],
            thrown = None\<rparr>
         \<and> perplexity_handler api_key body upstream_stream upstream_plain =
           \<lparr>calls = [],
            actions = [Status 400,
                       Json (ErrorBody ''Missing required fields: model and prompt are required'' None)],
            thrown = None\<rparr>"
  using assms gemini_handler_missing perplexity_handler_missing by blast

theorem missing_fields_rejected_witness:
  "\<not> truthy JUndefined \<and> \<not> truthy (JStr [])
   \<and> calls (gemini_handler (Some (js ''key''))
        \<lparr>model = JUndefined, prompt = JStr (js ''hi''), temperature = JUndefined,
         maxTokens = JUndefined, stream = JBool True\<rparr>
        (Resolved (GeminiData (Some [Candidate None])))) = []
   \<and> actions (perplexity_handler (Some (js ''key''))
        \<lparr>model = JStr (js ''sonar''), prompt = JStr [], temperature = JUndefined,
         maxTokens = JUndefined, stream = JUndefined\<rparr>
        (Resolved [StreamEnd]) (Resolved (PerplexityData None JUndefined JUndefined)))
       = [Status 400,
          Json (ErrorBody ''Missing required fields: model and prompt are required'' None)]"
  using missing_fields_rejected
          [of "\<lparr>model = JUndefined, prompt = JStr (js ''hi''), temperature = JUndefined,
                maxTokens = JUndefined, stream = JBool True\<rparr>"
              "Some (js ''key'')" "Resolved (GeminiData (Some [Candidate None]))"
              "Resolved [StreamEnd]" "Resolved (PerplexityData None JUndefined JUndefined)"]
        missing_fields_rejected
          [of "\<lparr>model = JStr (js ''sonar''), prompt = JStr [], temperature = JUndefined,
                maxTokens = JUndefined, stream = JUndefined\<rparr>"
              "Some (js ''key'')" "Resolved (GeminiData (Some [Candidate None]))"
              "Resolved [StreamEnd]" "Resolved (PerplexityData None JUndefined JUndefined)"]
  by simp

lemma truthy_default_stream: "truthy (default_to (JBool False) v) = truthy v"
  by (cases v) (simp_all add: default_to_def)

lemma sendChunk_single:
  "sendChunk mdl [w] 0 = [Write (Chunk (JStr w) mdl ''gemini''), Write Done, End]"
proof -
  have "sendChunk mdl [w] 0 = Write (Chunk (JStr w) mdl ''gemini'') # sendChunk mdl [w] (0 + 1)"
    by (subst sendChunk.simps) simp
  then show ?thesis by (simp add: sendChunk_past)
qed

lemma gemini_handler_resolved:
  assumes "truthy (model body)" and "truthy (prompt body)" and "\<not> unset api_key"
  shows "actions (gemini_handler api_key body (Resolved d)) =
     (if truthy (stream body) then
        (if has_candidates d
         then stream_headers @ sendChunk (model body) (split_on 32 (first_text d)) 0
         else [SetHeader ''Content-Type'' ''text/event-stream'',
               Write (ErrorEvent ''No response from Gemini API''), End])
      else
        (if has_candidates d then [Json (GeminiBody (first_text d) (model body))]
         else [Status 500, Json (ErrorBody ''No response from Gemini API'' None)]))"
  using assms by (simp add: gemini_handler_def gemini_try_def Let_def truthy_default_stream)

text \<open>
  C8, as the claim states it, fails. The upstream call succeeds with one candidate that
  carries no content (no \<open>content\<close> property at all): in streaming mode the handler
  writes one chunk with the empty text and the end marker, and otherwise it answers
  \<open>{success: true, content: ""}\<close>; neither is an error.
\<close>

theorem gemini_candidate_without_text:
  "actions (gemini_handler (Some (js ''key''))
      \<lparr>model = JStr (js ''gemini-1.5-flash''), prompt = JStr (js ''hi''),
       temperature = JUndefined, maxTokens = JUndefined, stream = JBool True\<rparr>
      (Resolved (GeminiData (Some [Candidate None]))))
     = stream_headers @ [Write (Chunk (JStr []) (JStr (js ''gemini-1.5-flash'')) ''gemini''),
                         Write Done, End]
   \<and> actions (gemini_handler (Some (js ''key''))
      \<lparr>model = JStr (js ''gemini-1.5-flash''), prompt = JStr (js ''hi''),
       temperature = JUndefined, maxTokens = JUndefined, stream = JUndefined\<rparr>
      (Resolved (GeminiData (Some [Candidate None]))))
     = [Json (GeminiBody [] (JStr (js ''gemini-1.5-flash'')))]"
  by (simp add: gemini_handler_resolved js_def or_else_def unset_def has_candidates_def first_text_def
        sendChunk_single)

text \<open>
  C8, amended. For a request with \<open>model\<close>, \<open>prompt\<close> and a configured API key: when the
  upstream call succeeds without candidates (the property absent, or an empty list), the
  result is the error "No response from Gemini API", as an error event in streaming mode
  and as a 500 response otherwise. When it succeeds with a candidate whose text is
  absent or empty, the result is a successful response with the empty content.
\<close>

theorem gemini_no_candidates:
  assumes "truthy (model body)" and "truthy (prompt body)" and "\<not> unset api_key"
  shows "(\<not> has_candidates d \<longrightarrow>
            actions (gemini_handler api_key body (Resolved d)) =
              (if truthy (stream body)
               then [SetHeader ''Content-Type'' ''text/event-stream'',
                     Write (ErrorEvent ''No response from Gemini API''), End]
               else [Status 500, Json (ErrorBody ''No response from Gemini API'' None)]))
         \<and> (has_candidates d \<and> first_text d = [] \<longrightarrow>
            actions (gemini_handler api_key body (Resolved d)) =
              (if truthy (stream body)
               then stream_headers @ [Write (Chunk (JStr []) (model body) ''gemini''),
                                      Write Done, End]
               else [Json (GeminiBody [] (model body))]))"
  using gemini_handler_resolved [OF assms, of d] by (simp add: sendChunk_single)

theorem gemini_no_candidates_witness:
  "truthy (JStr (js ''gemini-1.5-flash'')) \<and> truthy (JStr (js ''hi''))
   \<and> \<not> unset (Some (js ''key''))
   \<and> \<not> has_candidates (GeminiData (Some []))
   \<and> actions (gemini_handler (Some (js ''key''))
        \<lparr>model = JStr (js ''gemini-1.5-flash''), prompt = JStr (js ''hi''),
         temperature = JUndefined, maxTokens = JUndefined, stream = JBool True\<rparr>
        (Resolved (GeminiData (Some []))))
       = [SetHeader ''Content-Type'' ''text/event-stream'',
          Write (ErrorEvent ''No response from Gemini API''), End]
   \<and> has_candidates (GeminiData (Some [Candidate (Some (Content (Some [Part (Some [])])))]))
   \<and> first_text (GeminiData (Some [Candidate (Some (Content (Some [Part (Some [])])))])) = []
   \<and> actions (gemini_handler (Some (js ''key''))
        \<lparr>model = JStr (js ''gemini-1.5-flash''), prompt = JStr (js ''hi''),
         temperature = JUndefined, maxTokens = JUndefined, stream = JBool True\<rparr>
        (Resolved (GeminiData (Some [Candidate (Some (Content (Some [Part (Some [])])))]))))
       = stream_headers @ [Write (Chunk (JStr []) (JStr (js ''gemini-1.5-flash'')) ''gemini''),
                           Write Done, End]"
  using gemini_no_candidates
          [of "\<lparr>model = JStr (js ''gemini-1.5-flash''), prompt = JStr (js ''hi''),
                temperature = JUndefined, maxTokens = JUndefined, stream = JBool True\<rparr>"
              "Some (js ''key'')" "GeminiData (Some [])"]
        gemini_no_candidates
          [of "\<lparr>model = JStr (js ''gemini-1.5-flash''), prompt = JStr (js ''hi''),
                temperature = JUndefined, maxTokens = JUndefined, stream = JBool True\<rparr>"
              "Some (js ''key'')"
              "GeminiData (Some [Candidate (Some (Content (Some [Part (Some [])])))])"]
  by (simp add: js_def or_else_def unset_def has_candidates_def first_text_def)

text \<open>
  C6. The error path of the Gemini handler raises. The name \<open>stream\<close> is bound in the
  \<open>try\<close> block of each handler and not in the scope of its \<open>catch\<close> block. The request
  is well formed, the API key is configured and the upstream call is rejected with status
  429: the \<open>catch\<close> block reads \<open>stream\<close>, and the ReferenceError leaves the handler with
  nothing written to the response.
\<close>

theorem gemini_catch_block_raises:
  "''stream'' \<in> set gemini_try_scope \<and> ''stream'' \<in> set perplexity_try_scope
   \<and> ''stream'' \<notin> set catch_scope
   \<and> gemini_handler (Some (js ''key''))
      \<lparr>model = JStr (js ''gemini-1.5-flash''), prompt = JStr (js ''hi''),
       temperature = JUndefined, maxTokens = JUndefined, stream = JUndefined\<rparr>
      (Rejected (AxiosError (Some 429) None (js ''Request failed with status code 429'')))
   = \<lparr>calls = [GeminiGenerateContent (JStr (js ''gemini-1.5-flash'')) (JStr (js ''hi''))
                  (JNum 7 (- 1)) (JNum 2048 0)],
      actions = [],
      thrown = Some (ReferenceError ''stream'')\<rparr>"
  by (simp add: gemini_handler_def gemini_try_def Let_def default_to_def or_else_def unset_def js_def
        gemini_catch_throws stream_not_in_catch_scope gemini_try_scope_def
        perplexity_try_scope_def)

text \<open>
  C1. Two runs of the Perplexity endpoint in streaming mode. When the upstream call times
  out, the \<open>catch\<close> block raises before it writes its error event: the headers are set,
  no event is written, and the sequence has no terminal event. When the upstream stream
  sends a chunk, the end sentinel, and then ends, the \<open>data\<close> listener and the \<open>end\<close>
  listener each write the end marker and end the response.
\<close>

theorem perplexity_stream_terminal_events:
  "filter is_terminal (actions (perplexity_handler (Some (js ''key''))
      \<lparr>model = JStr (js ''sonar''), prompt = JStr (js ''hi''),
       temperature = JUndefined, maxTokens = JUndefined, stream = JBool True\<rparr>
      (Rejected (AxiosError None None (js ''timeout of 30000ms exceeded'')))
      (Rejected (AxiosError None None (js ''timeout of 30000ms exceeded''))))) = []
   \<and> thrown (perplexity_handler (Some (js ''key''))
      \<lparr>model = JStr (js ''sonar''), prompt = JStr (js ''hi''),
       temperature = JUndefined, maxTokens = JUndefined, stream = JBool True\<rparr>
      (Rejected (AxiosError None None (js ''timeout of 30000ms exceeded'')))
      (Rejected (AxiosError None None (js ''timeout of 30000ms exceeded''))))
     = Some (ReferenceError ''stream'')
   \<and> on_stream (JStr (js ''sonar''))
        [StreamData
           (js ''data: {\"choices\":[{\"delta\":{\"content\":\"Hi\"}}]}\<newline>\<newline>data: [DONE]\<newline>\<newline>''),
         StreamEnd]
     = [Write (Chunk (JStr (js ''Hi'')) (JStr (js ''sonar'')) ''perplexity''),
        Write Done, End, Write Done, End]"
proof -
  have a: "perplexity_handler (Some (js ''key''))
      \<lparr>model = JStr (js ''sonar''), prompt = JStr (js ''hi''),
       temperature = JUndefined, maxTokens = JUndefined, stream = JBool True\<rparr>
      (Rejected (AxiosError None None (js ''timeout of 30000ms exceeded'')))
      (Rejected (AxiosError None None (js ''timeout of 30000ms exceeded'')))
    = \<lparr>calls = [PerplexityChat (JStr (js ''sonar'')) (JStr (js ''hi'')) (JBool True)],
       actions = stream_headers, thrown = Some (ReferenceError ''stream'')\<rparr>"
    by (simp add: perplexity_handler_def perplexity_try_def Let_def default_to_def or_else_def unset_def
          js_def perplexity_catch_throws)
  let ?l1 = "js ''data: {\"choices\":[{\"delta\":{\"content\":\"Hi\"}}]}''"
  let ?l2 = "js ''data: [DONE]''"
  have lines: "split_on 10
      (js ''data: {\"choices\":[{\"delta\":{\"content\":\"Hi\"}}]}\<newline>\<newline>data: [DONE]\<newline>\<newline>'')
      = [?l1, [], ?l2, [], []]"
    by (simp add: js_def)
  have l1: "trim ?l1 \<noteq> []" "take 6 ?l1 = js ''data: ''"
    "drop 6 ?l1 = js ''{\"choices\":[{\"delta\":{\"content\":\"Hi\"}}]}''"
    "js ''{\"choices\":[{\"delta\":{\"content\":\"Hi\"}}]}'' \<noteq> js ''[DONE]''"
    by (simp_all add: trim_def js_def is_space_def)
  have l2: "trim ?l2 \<noteq> []" "take 6 ?l2 = js ''data: ''" "drop 6 ?l2 = js ''[DONE]''"
    by (simp_all add: trim_def js_def is_space_def)
  have l0: "trim [] = []"
    by (simp add: trim_def)
  have parsed: "JSON_parse (js ''{\"choices\":[{\"delta\":{\"content\":\"Hi\"}}]}'')
      = Some (JObj [(js ''choices'',
                JArr [JObj [(js ''delta'', JObj [(js ''content'', JStr (js ''Hi''))])]])])"
    by code_simp
  have delta: "delta_content (JObj [(js ''choices'',
                JArr [JObj [(js ''delta'', JObj [(js ''content'', JStr (js ''Hi''))])]])])
      = Some (JStr (js ''Hi''))"
    by (simp add: delta_content_def opt_prop_def js_def)
  have b: "on_stream (JStr (js ''sonar''))
        [StreamData
           (js ''data: {\"choices\":[{\"delta\":{\"content\":\"Hi\"}}]}\<newline>\<newline>data: [DONE]\<newline>\<newline>''),
         StreamEnd]
     = [Write (Chunk (JStr (js ''Hi'')) (JStr (js ''sonar'')) ''perplexity''),
        Write Done, End, Write Done, End]"
    by (simp add: on_stream_def lines l0 l1 l2 parsed delta Let_def)
  show ?thesis
    by (simp add: a b stream_headers_def)
qed

text \<open>
  C5. The mapping of upstream failures to responses is not produced. Three requests
  with \<open>model\<close>, \<open>prompt\<close> and a configured API key: a Perplexity request that is not
  streamed, rejected upstream with status 400 and a message; a Gemini request that is not
  streamed, whose upstream call times out; a streamed Gemini request, rejected upstream
  with status 429. In each the \<open>catch\<close> block raises on the name \<open>stream\<close> before it
  reaches the branch that builds the response: no status is set, no body and no event is
  written, and the ReferenceError leaves the handler.
\<close>

theorem upstream_failure_not_mapped:
  "perplexity_handler (Some (js ''key''))
      \<lparr>model = JStr (js ''sonar''), prompt = JStr (js ''hi''),
       temperature = JUndefined, maxTokens = JUndefined, stream = JUndefined\<rparr>
      (Rejected (AxiosError (Some 400) (Some (js ''Invalid model''))
                   (js ''Request failed with status code 400'')))
      (Rejected (AxiosError (Some 400) (Some (js ''Invalid model''))
                   (js ''Request failed with status code 400'')))
   = \<lparr>calls = [PerplexityChat (JStr (js ''sonar'')) (JStr (js ''hi'')) (JBool False)],
      actions = [],
      thrown = Some (ReferenceError ''stream'')\<rparr>
   \<and> gemini_handler (Some (js ''key''))
      \<lparr>model = JStr (js ''gemini-1.5-flash''), prompt = JStr (js ''hi''),
       temperature = JUndefined, maxTokens = JUndefined, stream = JUndefined\<rparr>
      (Rejected (AxiosError None None (js ''timeout of 30000ms exceeded'')))
   = \<lparr>calls = [GeminiGenerateContent (JStr (js ''gemini-1.5-flash'')) (JStr (js ''hi''))
                  (JNum 7 (- 1)) (JNum 2048 0)],
      actions = [],
      thrown = Some (ReferenceError ''stream'')\<rparr>
   \<and> gemini_handler (Some (js ''key''))
      \<lparr>model = JStr (js ''gemini-1.5-flash''), prompt = JStr (js ''hi''),
       temperature = JUndefined, maxTokens = JUndefined, stream = JBool True\<rparr>
      (Rejected (AxiosError (Some 429) None (js ''Request failed with status code 429'')))
   = \<lparr>calls = [GeminiGenerateContent (JStr (js ''gemini-1.5-flash'')) (JStr (js ''hi''))
                  (JNum 7 (- 1)) (JNum 2048 0)],
      actions = [],
      thrown = Some (ReferenceError ''stream'')\<rparr>"
  by (simp add: gemini_handler_def gemini_try_def perplexity_handler_def perplexity_try_def
        Let_def default_to_def unset_def js_def gemini_catch_throws perplexity_catch_throws)

section \<open>The cleanup is idempotent\<close>

subsection \<open>Two replacements that change nothing\<close>

lemma fix_currency_id: "fix_currency s = s"
proof (induction s rule: fix_currency.induct)
  case 1
  then show ?case by simp
next
  case (2 c cs)
  then show ?case by (auto split: option.splits)
qed

lemma fix_decimal_id: "fix_decimal s = s"
proof (induction s rule: fix_decimal.induct)
  case 1
  then show ?case by simp
next
  case (2 c cs)
  then show ?case by (auto split: option.splits)
qed

subsection \<open>Character classes\<close>

lemma class_facts:
  "is_digit c \<Longrightarrow> \<not> is_space c" "is_digit c \<Longrightarrow> \<not> is_alpha c" "is_digit c \<Longrightarrow> \<not> is_stop c"
  "is_digit c \<Longrightarrow> \<not> is_upper c" "is_upper c \<Longrightarrow> is_alpha c" "is_alpha c \<Longrightarrow> \<not> is_space c"
  "is_stop c \<Longrightarrow> \<not> is_space c" "is_stop c \<Longrightarrow> \<not> is_upper c" "is_digit c \<Longrightarrow> c \<noteq> 37"
  "is_digit c \<Longrightarrow> c \<noteq> 46" "is_alpha c \<Longrightarrow> c \<noteq> 37" "is_stop c \<Longrightarrow> \<not> is_digit c"
  "is_upper c \<Longrightarrow> \<not> is_space c" "is_upper c \<Longrightarrow> \<not> is_digit c"
  by (auto simp: is_digit_def is_space_def is_alpha_def is_stop_def is_upper_def)

lemma class_consts:
  "is_space 32" "\<not> is_digit 32" "\<not> is_alpha 32" "\<not> is_stop 32" "\<not> is_upper 32"
  "\<not> is_space 37" "\<not> is_digit 37" "\<not> is_space 46" "\<not> is_digit 46" "\<not> is_alpha 37"
  by (simp_all add: is_digit_def is_space_def is_alpha_def is_stop_def is_upper_def)

subsection \<open>The percent sign\<close>

lemma hd_is_fix_percent: "hd_is P (fix_percent s) = hd_is P s"
proof (cases s)
  case Nil
  then show ?thesis by simp
next
  case (Cons c cs)
  show ?thesis
  proof (cases "percent_match c cs")
    case None
    then show ?thesis using Cons by simp
  next
    case (Some a)
    then obtain g n where a: "a = (g, n)" by (cases a)
    from Some a have "hd g = c \<and> g \<noteq> []"
      by (auto simp: percent_match_def Let_def split: if_splits list.splits)
    then show ?thesis
      using Cons Some a by (cases g) auto
  qed
qed

lemma percent_match_space: "is_space c \<Longrightarrow> percent_match c cs = None"
  using class_facts(1) [of c] by (auto simp: percent_match_def)

lemma dropWhile_fix_percent:
  "dropWhile is_space (fix_percent s) = fix_percent (dropWhile is_space s)"
proof (induction s)
  case Nil
  then show ?case by simp
next
  case (Cons c cs)
  show ?case
  proof (cases "is_space c")
    case True
    then show ?thesis using Cons by (simp add: percent_match_space)
  next
    case False
    have "hd_is (\<lambda>x. \<not> is_space x) (fix_percent (c # cs))"
      using False by (simp only: hd_is_fix_percent) simp
    then have "dropWhile is_space (fix_percent (c # cs)) = fix_percent (c # cs)"
      by (cases "fix_percent (c # cs)") auto
    then show ?thesis using False by simp
  qed
qed

lemma spaces_then_percent_fix_percent:
  "spaces_then_percent (fix_percent s) = spaces_then_percent s"
  by (simp add: spaces_then_percent_def hd_is_fix_percent dropWhile_fix_percent)

lemma percent_match_complete:
  assumes "is_digit c" and "spaces_then_percent cs"
  shows "percent_match c cs \<noteq> None"
proof -
  from assms(2) obtain w r where cs: "cs = w # r" and w: "is_space w"
    by (cases cs) (auto simp: spaces_then_percent_def)
  have nd: "\<not> is_digit w" "w \<noteq> 46"
    using w class_facts(1) [of w] class_consts by auto
  obtain q r4 where q: "dropWhile is_space cs = q # r4" and "q = 37"
    using assms(2) by (cases "dropWhile is_space cs") (auto simp: spaces_then_percent_def)
  then show ?thesis
    using assms(1) cs nd q
    by (simp add: percent_match_def Let_def dropWhile_eq_drop [symmetric])
qed

lemma spaced_percent_append:
  "list_all (\<lambda>x. \<not> is_space x) g \<Longrightarrow>
   spaced_percent (g @ t)
     = ((g \<noteq> [] \<and> is_digit (last g) \<and> spaces_then_percent t) \<or> spaced_percent t)"
proof (induction g)
  case Nil
  then show ?case by simp
next
  case (Cons x g)
  show ?case
  proof (cases g)
    case Nil
    then show ?thesis by simp
  next
    case (Cons y g')
    then have "\<not> spaces_then_percent (g @ t)"
      using Cons.prems by (simp add: spaces_then_percent_def)
    then show ?thesis
      using Cons.IH Cons.prems Cons by simp
  qed
qed

lemma spaced_percent_suffix: "spaced_percent t \<Longrightarrow> spaced_percent (pre @ t)"
  by (induction pre) auto

lemma spaced_percent_drop: "\<not> spaced_percent s \<Longrightarrow> \<not> spaced_percent (drop n s)"
  using spaced_percent_suffix [of "drop n s" "take n s"] by auto

text \<open>What a match is made of: the group, the white space, the percent sign.\<close>

lemma percent_match_shape:
  assumes "percent_match c cs = Some (g, n)"
  shows "\<exists>ws. c # cs = g @ ws @ 37 # drop n cs \<and> list_all is_space ws
            \<and> list_all (\<lambda>x. \<not> is_space x) g \<and> g \<noteq> [] \<and> is_digit (last g)"
proof -
  define d1 where "d1 = takeWhile is_digit cs"
  define r1 where "r1 = drop (length d1) cs"
  define frac where "frac = (case r1 of [] \<Rightarrow> []
     | p # r2 \<Rightarrow> if p = 46 \<and> takeWhile is_digit r2 \<noteq> [] then p # takeWhile is_digit r2 else [])"
  define r3 where "r3 = drop (length frac) r1"
  define ws where "ws = takeWhile is_space r3"
  have pm: "percent_match c cs =
      (if \<not> is_digit c then None
       else (case drop (length ws) r3 of
               [] \<Rightarrow> None
             | q # r4 \<Rightarrow> if q = 37 then Some (c # d1 @ frac, length d1 + length frac + length ws + 1)
                         else None))"
    unfolding percent_match_def d1_def r1_def frac_def r3_def ws_def Let_def by simp
  have res: "(if \<not> is_digit c then None
       else (case drop (length ws) r3 of
               [] \<Rightarrow> None
             | q # r4 \<Rightarrow> if q = 37 then Some (c # d1 @ frac, length d1 + length frac + length ws + 1)
                         else None)) = Some (g, n)"
    using assms unfolding pm .
  then have c: "is_digit c"
    by (auto split: if_splits)
  from res c obtain q r4 where q: "drop (length ws) r3 = q # r4" and q37: "q = 37"
    and g: "g = c # d1 @ frac" and n: "n = length d1 + length frac + length ws + 1"
    by (auto split: list.splits if_splits)
  have cs1: "cs = d1 @ r1"
    by (simp add: d1_def r1_def dropWhile_eq_drop [symmetric])
  have fr: "r1 = frac @ r3"
  proof (cases r1)
    case Nil
    then show ?thesis by (simp add: frac_def r3_def)
  next
    case (Cons p r2)
    show ?thesis
    proof (cases "p = 46 \<and> takeWhile is_digit r2 \<noteq> []")
      case True
      then have "frac = p # takeWhile is_digit r2" using Cons by (simp add: frac_def)
      then show ?thesis
        using Cons by (simp add: r3_def dropWhile_eq_drop [symmetric])
    next
      case False
      then have "frac = []" using Cons by (auto simp: frac_def)
      then show ?thesis by (simp add: r3_def)
    qed
  qed
  have r3: "r3 = ws @ q # r4"
    using q by (metis append_take_drop_id ws_def takeWhile_eq_take)
  have dr: "drop n cs = r4"
    using cs1 fr r3 n by simp
  have d1d: "list_all is_digit d1"
    by (simp add: d1_def list_all_iff) (meson set_takeWhileD)
  have fracs: "list_all (\<lambda>x. \<not> is_space x) frac \<and> (frac \<noteq> [] \<longrightarrow> is_digit (last frac))"
  proof (cases r1)
    case Nil
    then show ?thesis by (simp add: frac_def)
  next
    case (Cons p r2)
    show ?thesis
    proof (cases "p = 46 \<and> takeWhile is_digit r2 \<noteq> []")
      case True
      then have f: "frac = p # takeWhile is_digit r2" using Cons by (simp add: frac_def)
      have "list_all is_digit (takeWhile is_digit r2)"
        by (simp add: list_all_iff) (meson set_takeWhileD)
      moreover have "is_digit (last (takeWhile is_digit r2))"
        using True by (metis last_in_set set_takeWhileD)
      ultimately show ?thesis
        using True class_consts(8) unfolding f list_all_iff by (auto dest: class_facts(1))
    next
      case False
      then have "frac = []" using Cons by (auto simp: frac_def)
      then show ?thesis by simp
    qed
  qed
  have wss: "list_all is_space ws"
    unfolding ws_def list_all_iff by (auto dest: set_takeWhileD)
  have cns: "\<not> is_space c"
    using c by (rule class_facts(1))
  have d1ns: "list_all (\<lambda>x. \<not> is_space x) d1"
    using d1d unfolding list_all_iff by (blast dest: class_facts(1))
  have gns: "list_all (\<lambda>x. \<not> is_space x) g"
    using cns d1ns fracs by (simp add: g)
  have lastg: "is_digit (last g)"
  proof (cases "frac = []")
    case True
    show ?thesis
    proof (cases "d1 = []")
      case d: True
      then show ?thesis using True c by (simp add: g)
    next
      case d: False
      then have "last d1 \<in> set d1" by simp
      then have "is_digit (last d1)" using d1d unfolding list_all_iff by blast
      then show ?thesis using True d by (simp add: g)
    qed
  next
    case False
    then show ?thesis using fracs by (simp add: g)
  qed
  have "c # cs = g @ ws @ 37 # drop n cs"
    using g cs1 fr r3 dr q37 by simp
  then show ?thesis
    using wss gns lastg g by blast
qed

lemma no_spaced_percent_fix_percent: "\<not> spaced_percent (fix_percent s)"
proof (induction s rule: fix_percent.induct)
  case 1
  then show ?case by simp
next
  case (2 c cs)
  show ?case
  proof (cases "percent_match c cs")
    case None
    then have "\<not> (is_digit c \<and> spaces_then_percent cs)"
      using percent_match_complete by blast
    then show ?thesis
      using None 2 by (simp add: spaces_then_percent_fix_percent)
  next
    case (Some a)
    then obtain g n where a: "a = (g, n)" by (cases a)
    from percent_match_shape Some a
    have g: "list_all (\<lambda>x. \<not> is_space x) g" by blast
    have "\<not> spaced_percent (fix_percent (drop n cs))"
      using 2(2) Some a by simp
    then have "\<not> spaced_percent (g @ 37 # fix_percent (drop n cs))"
      using g class_consts by (simp add: spaced_percent_append spaces_then_percent_def)
    then show ?thesis
      using Some a by simp
  qed
qed

lemma fix_percent_fixed: "\<not> spaced_percent s \<Longrightarrow> fix_percent s = s"
proof (induction s rule: fix_percent.induct)
  case 1
  then show ?case by simp
next
  case (2 c cs)
  show ?case
  proof (cases "percent_match c cs")
    case None
    then show ?thesis using 2 by simp
  next
    case (Some a)
    then obtain g n where a: "a = (g, n)" by (cases a)
    from percent_match_shape Some a obtain ws where
      sh: "c # cs = g @ ws @ 37 # drop n cs" and ws: "list_all is_space ws"
      and g: "list_all (\<lambda>x. \<not> is_space x) g" "g \<noteq> []" "is_digit (last g)"
      by blast
    have "ws = []"
    proof (rule ccontr)
      assume "ws \<noteq> []"
      then obtain w ws' where w: "ws = w # ws'" by (cases ws) auto
      have "dropWhile is_space (ws @ 37 # drop n cs) = 37 # drop n cs"
        using ws class_consts by (simp add: dropWhile_append3 list_all_iff)
      then have "spaces_then_percent (ws @ 37 # drop n cs)"
        using w ws by (simp add: spaces_then_percent_def)
      then have "spaced_percent (g @ ws @ 37 # drop n cs)"
        using g by (simp add: spaced_percent_append)
      then show False using sh 2(3) by simp
    qed
    moreover have "fix_percent (drop n cs) = drop n cs"
    proof -
      have "\<not> spaced_percent cs" using 2(3) by simp
      then have "\<not> spaced_percent (drop n cs)" by (rule spaced_percent_drop)
      then show ?thesis using 2(2) Some a by simp
    qed
    ultimately have "fix_percent (c # cs) = g @ 37 # drop n cs"
      using Some a by simp
    then show ?thesis
      using sh \<open>ws = []\<close> by simp
  qed
qed

subsection \<open>A space after a number\<close>

lemma hd_is_space_after_number: "hd_is P (space_after_number s) = hd_is P s"
  by (cases s) (auto simp: Let_def split: list.splits)

lemma space_after_number_space:
  "is_space c \<Longrightarrow> space_after_number (c # cs) = c # space_after_number cs"
  using class_facts(1) [of c] by auto

lemma dropWhile_space_after_number:
  "dropWhile is_space (space_after_number s) = space_after_number (dropWhile is_space s)"
proof (induction s)
  case Nil
  then show ?case by simp
next
  case (Cons c cs)
  show ?case
  proof (cases "is_space c")
    case True
    then have "\<not> is_digit c" using class_facts(1) by blast
    then show ?thesis using Cons True by simp
  next
    case False
    have "hd_is (\<lambda>x. \<not> is_space x) (space_after_number (c # cs))"
      using False by (simp only: hd_is_space_after_number) simp
    then have "dropWhile is_space (space_after_number (c # cs)) = space_after_number (c # cs)"
      by (cases "space_after_number (c # cs)") auto
    then show ?thesis using False by simp
  qed
qed

lemma spaces_then_percent_space_after_number:
  "spaces_then_percent (space_after_number s) = spaces_then_percent s"
  by (simp add: spaces_then_percent_def hd_is_space_after_number dropWhile_space_after_number)

lemma digit_letter_append:
  "list_all (\<lambda>x. \<not> is_alpha x) g \<Longrightarrow>
   digit_letter (g @ t) = ((g \<noteq> [] \<and> is_digit (last g) \<and> hd_is is_alpha t) \<or> digit_letter t)"
proof (induction g)
  case Nil
  then show ?case by simp
next
  case (Cons x g)
  then show ?case by (cases g) auto
qed

lemma digit_letter_suffix: "digit_letter t \<Longrightarrow> digit_letter (pre @ t)"
  by (induction pre) auto

lemma digit_letter_drop: "\<not> digit_letter s \<Longrightarrow> \<not> digit_letter (drop n s)"
  using digit_letter_suffix [of "drop n s" "take n s"] by auto

lemma digits_takeWhile: "list_all is_digit (takeWhile is_digit cs)"
  unfolding list_all_iff by (auto dest: set_takeWhileD)

lemma digits_not_alpha: "list_all is_digit d \<Longrightarrow> list_all (\<lambda>x. \<not> is_alpha x) d"
  unfolding list_all_iff by (blast dest: class_facts(2))

lemma digits_not_space: "list_all is_digit d \<Longrightarrow> list_all (\<lambda>x. \<not> is_space x) d"
  unfolding list_all_iff by (blast dest: class_facts(1))

lemma last_digits: "is_digit c \<Longrightarrow> list_all is_digit d \<Longrightarrow> is_digit (last (c # d))"
  by (induction d arbitrary: c) auto

lemma split_digits: "cs = takeWhile is_digit cs @ drop (length (takeWhile is_digit cs)) cs"
  by (simp add: dropWhile_eq_drop [symmetric])

lemma hd_after_digits:
  "drop (length (takeWhile is_digit cs)) cs = a # r \<Longrightarrow> \<not> is_digit a"
  by (metis dropWhile_eq_drop hd_dropWhile list.distinct(1) list.sel(1))

lemma hd_is_alpha_digits:
  assumes "\<not> hd_is is_alpha (drop (length (takeWhile is_digit cs)) cs)"
  shows "\<not> hd_is is_alpha cs"
proof (cases "takeWhile is_digit cs")
  case Nil
  then show ?thesis using assms by simp
next
  case (Cons x xs)
  then have "hd cs = x \<and> cs \<noteq> [] \<and> is_digit x"
    by (metis hd_append2 list.distinct(1) list.sel(1) list.set_intros(1) set_takeWhileD
        split_digits takeWhile.simps(1))
  then show ?thesis
    using class_facts(2) [of x] by (cases cs) auto
qed

lemma no_digit_letter_space_after_number: "\<not> digit_letter (space_after_number s)"
proof (induction s rule: space_after_number.induct)
  case 1
  then show ?case by simp
next
  case (2 c cs)
  define d where "d = takeWhile is_digit cs"
  show ?case
  proof (cases "is_digit c \<and> hd_is is_alpha (drop (length d) cs)")
    case True
    then obtain a r where ar: "drop (length d) cs = a # r" and a: "is_alpha a"
      by (cases "drop (length d) cs") auto
    have eq: "space_after_number (c # cs)
        = (c # d) @ 32 # a # space_after_number (drop (Suc (length d)) cs)"
      using True ar a by (simp add: d_def Let_def)
    have IH: "\<not> digit_letter (space_after_number (drop (Suc (length d)) cs))"
      using 2(2) [of d a r] True ar a by (simp add: d_def)
    have "list_all (\<lambda>x. \<not> is_alpha x) (c # d)"
      using True digits_not_alpha [OF digits_takeWhile, of cs] class_facts(2) [of c]
      by (simp add: d_def)
    then have "digit_letter ((c # d) @ 32 # a # space_after_number (drop (Suc (length d)) cs))
        = digit_letter (32 # a # space_after_number (drop (Suc (length d)) cs))"
      using class_consts by (simp only: digit_letter_append) simp
    then show ?thesis
      using eq IH a class_facts(2) [of a] class_consts by auto
  next
    case False
    have eq: "space_after_number (c # cs) = c # space_after_number cs"
      using False by (auto simp: d_def Let_def split: list.splits)
    have IH: "\<not> digit_letter (space_after_number cs)"
    proof (cases "is_digit c")
      case c: True
      show ?thesis
      proof (cases "drop (length d) cs")
        case Nil
        then show ?thesis using 2(1) [of d] c by (simp add: d_def)
      next
        case (Cons a r)
        then have "\<not> is_alpha a" using False c by simp
        then show ?thesis using 2(3) [of d a r] c Cons by (simp add: d_def)
      qed
    next
      case c: False
      then show ?thesis using 2(4) by simp
    qed
    have "\<not> (is_digit c \<and> hd_is is_alpha cs)"
      using False hd_is_alpha_digits [of cs] by (auto simp: d_def)
    then show ?thesis
      using eq IH by (simp add: hd_is_space_after_number)
  qed
qed

lemma digits_then_letter:
  assumes "is_digit c" and "drop (length (takeWhile is_digit cs)) cs = a # r" and "is_alpha a"
  shows "digit_letter (c # cs)"
proof -
  let ?d = "takeWhile is_digit cs"
  have "c # cs = (c # ?d) @ a # r"
    using assms(2) split_digits [of cs] by simp
  moreover have "digit_letter ((c # ?d) @ a # r)"
  proof -
    have na: "list_all (\<lambda>x. \<not> is_alpha x) (c # ?d)"
      using digits_not_alpha [OF digits_takeWhile, of cs] class_facts(2) [OF assms(1)] by simp
    have ld: "is_digit (last (c # ?d))"
      using assms(1) digits_takeWhile by (rule last_digits)
    show ?thesis
      unfolding digit_letter_append [OF na] using ld assms(3) by simp
  qed
  ultimately show ?thesis by simp
qed

lemma space_after_number_fixed: "\<not> digit_letter s \<Longrightarrow> space_after_number s = s"
proof (induction s rule: space_after_number.induct)
  case 1
  then show ?case by simp
next
  case (2 c cs)
  define d where "d = takeWhile is_digit cs"
  have nomatch: "\<not> (is_digit c \<and> hd_is is_alpha (drop (length d) cs))"
  proof
    assume m: "is_digit c \<and> hd_is is_alpha (drop (length d) cs)"
    then obtain a r where "drop (length d) cs = a # r" "is_alpha a"
      by (cases "drop (length d) cs") auto
    then have "digit_letter (c # cs)"
      using m digits_then_letter [of c cs a r] by (simp add: d_def)
    then show False using 2(5) by simp
  qed
  have eq: "space_after_number (c # cs) = c # space_after_number cs"
    using nomatch by (auto simp: d_def Let_def split: list.splits)
  have tail: "\<not> digit_letter cs" using 2(5) by simp
  have "space_after_number cs = cs"
  proof (cases "is_digit c")
    case c: True
    show ?thesis
    proof (cases "drop (length d) cs")
      case Nil
      then show ?thesis using 2(1) [of d] c tail by (simp add: d_def)
    next
      case (Cons a r)
      then have "\<not> is_alpha a" using nomatch c by simp
      then show ?thesis using 2(3) [of d a r] c Cons tail by (simp add: d_def)
    qed
  next
    case c: False
    then show ?thesis using 2(4) tail by simp
  qed
  then show ?case using eq by simp
qed

lemma no_spaced_percent_space_after_number:
  "\<not> spaced_percent s \<Longrightarrow> \<not> spaced_percent (space_after_number s)"
proof (induction s rule: space_after_number.induct)
  case 1
  then show ?case by simp
next
  case (2 c cs)
  define d where "d = takeWhile is_digit cs"
  have tail: "\<not> spaced_percent cs" using 2(5) by simp
  show ?case
  proof (cases "is_digit c \<and> hd_is is_alpha (drop (length d) cs)")
    case True
    then obtain a r where ar: "drop (length d) cs = a # r" and a: "is_alpha a"
      by (cases "drop (length d) cs") auto
    have eq: "space_after_number (c # cs)
        = (c # d) @ 32 # a # space_after_number (drop (Suc (length d)) cs)"
      using True ar a by (simp add: d_def Let_def)
    have "\<not> spaced_percent (drop (Suc (length d)) cs)"
      using tail by (rule spaced_percent_drop)
    then have IH: "\<not> spaced_percent (space_after_number (drop (Suc (length d)) cs))"
      using 2(2) [of d a r] True ar a by (simp add: d_def)
    have ns: "list_all (\<lambda>x. \<not> is_space x) (c # d)"
      using True digits_not_space [OF digits_takeWhile, of cs] class_facts(1) [of c]
      by (simp add: d_def)
    have "\<not> spaces_then_percent (32 # a # space_after_number (drop (Suc (length d)) cs))"
      using a class_facts(6) [of a] class_facts(11) [of a] by (simp add: spaces_then_percent_def)
    then have "\<not> spaced_percent ((c # d) @ 32 # a # space_after_number (drop (Suc (length d)) cs))"
      using IH class_consts class_facts(2) [of a] a
      by (simp only: spaced_percent_append [OF ns]) auto
    then show ?thesis using eq by simp
  next
    case False
    have eq: "space_after_number (c # cs) = c # space_after_number cs"
      using False by (auto simp: d_def Let_def split: list.splits)
    have IH: "\<not> spaced_percent (space_after_number cs)"
    proof (cases "is_digit c")
      case c: True
      show ?thesis
      proof (cases "drop (length d) cs")
        case Nil
        then show ?thesis using 2(1) [of d] c tail by (simp add: d_def)
      next
        case (Cons a r)
        then have "\<not> is_alpha a" using False c by simp
        then show ?thesis using 2(3) [of d a r] c Cons tail by (simp add: d_def)
      qed
    next
      case c: False
      then show ?thesis using 2(4) tail by simp
    qed
    show ?thesis
      using eq IH 2(5) by (simp add: spaces_then_percent_space_after_number)
  qed
qed

subsection \<open>One space for a run of white space\<close>

lemma hd_is_collapse_spaces:
  "hd_is P (collapse_spaces (c # cs)) = P (if is_space c then 32 else c)"
  by simp

lemma not_space_after_takeWhile:
  "\<not> hd_is is_space (drop (length (takeWhile is_space cs)) cs)"
  by (metis dropWhile_eq_drop hd_dropWhile hd_is.elims(2) list.sel(1) list.distinct(1))

lemma hd_is_space_collapse: "hd_is is_space (collapse_spaces s) = hd_is is_space s"
  using class_consts(1) by (cases s) auto

lemma spaces_then_percent_collapse_spaces:
  "spaces_then_percent (collapse_spaces s) = spaces_then_percent s"
proof (cases s)
  case Nil
  then show ?thesis by simp
next
  case (Cons c cs)
  show ?thesis
  proof (cases "is_space c")
    case False
    then show ?thesis using Cons by (simp add: spaces_then_percent_def)
  next
    case True
    let ?r = "drop (length (takeWhile is_space cs)) cs"
    have r: "\<not> hd_is is_space ?r" by (rule not_space_after_takeWhile)
    then have "dropWhile is_space (collapse_spaces ?r) = collapse_spaces ?r"
      by (cases ?r) auto
    moreover have "hd_is (\<lambda>x. x = 37) (collapse_spaces ?r) = hd_is (\<lambda>x. x = 37) ?r"
      using r by (cases ?r) auto
    ultimately show ?thesis
      using Cons True class_consts(1)
      by (simp add: spaces_then_percent_def dropWhile_eq_drop [symmetric])
  qed
qed

lemma single_spaces_collapse_spaces: "single_spaces (collapse_spaces s)"
proof (induction s rule: collapse_spaces.induct)
  case 1
  then show ?case by simp
next
  case (2 c cs)
  show ?case
  proof (cases "is_space c")
    case True
    have "\<not> hd_is is_space (collapse_spaces (drop (length (takeWhile is_space cs)) cs))"
      using not_space_after_takeWhile [of cs] by (simp add: hd_is_space_collapse)
    then show ?thesis using True 2(1) class_consts(1) by simp
  next
    case False
    then show ?thesis using 2(2) by simp
  qed
qed

lemma collapse_spaces_fixed: "single_spaces s \<Longrightarrow> collapse_spaces s = s"
proof (induction s)
  case Nil
  then show ?case by simp
next
  case (Cons c cs)
  show ?case
  proof (cases "is_space c")
    case True
    then have "c = 32" "\<not> hd_is is_space cs" using Cons.prems by auto
    then have "takeWhile is_space cs = []" by (cases cs) auto
    then show ?thesis using True \<open>c = 32\<close> Cons by simp
  next
    case False
    then show ?thesis using Cons by simp
  qed
qed

lemma no_spaced_percent_collapse_spaces:
  "\<not> spaced_percent s \<Longrightarrow> \<not> spaced_percent (collapse_spaces s)"
proof (induction s rule: collapse_spaces.induct)
  case 1
  then show ?case by simp
next
  case (2 c cs)
  have tail: "\<not> spaced_percent cs" using 2(3) by simp
  show ?case
  proof (cases "is_space c")
    case True
    have "\<not> spaced_percent (drop (length (takeWhile is_space cs)) cs)"
      using tail by (rule spaced_percent_drop)
    then show ?thesis using True 2(1) class_consts(2) by simp
  next
    case False
    then show ?thesis
      using 2(2) 2(3) tail by (simp add: spaces_then_percent_collapse_spaces)
  qed
qed

lemma hd_is_alpha_collapse: "hd_is is_alpha (collapse_spaces s) = hd_is is_alpha s"
proof (cases s)
  case Nil
  then show ?thesis by simp
next
  case (Cons c cs)
  then show ?thesis using class_consts(3) class_facts(6) [of c] by auto
qed

lemma no_digit_letter_collapse_spaces:
  "\<not> digit_letter s \<Longrightarrow> \<not> digit_letter (collapse_spaces s)"
proof (induction s rule: collapse_spaces.induct)
  case 1
  then show ?case by simp
next
  case (2 c cs)
  have tail: "\<not> digit_letter cs" using 2(3) by simp
  show ?case
  proof (cases "is_space c")
    case True
    have "\<not> digit_letter (drop (length (takeWhile is_space cs)) cs)"
      using tail by (rule digit_letter_drop)
    then show ?thesis using True 2(1) class_consts(2) by simp
  next
    case False
    then show ?thesis
      using 2(2) 2(3) tail by (simp add: hd_is_alpha_collapse)
  qed
qed

subsection \<open>A space after a full stop\<close>

lemma hd_is_space_after_stop: "hd_is P (space_after_stop s) = hd_is P s"
  by (induction s rule: space_after_stop.induct) auto

lemma dropWhile_space_after_stop:
  "dropWhile is_space (space_after_stop s) = space_after_stop (dropWhile is_space s)"
proof (induction s rule: space_after_stop.induct)
  case (1 p u cs)
  show ?case
  proof (cases "is_space p")
    case True
    then have "\<not> is_stop p" using class_facts(7) by blast
    then show ?thesis using 1 True by simp
  next
    case False
    have "hd_is (\<lambda>x. \<not> is_space x) (space_after_stop (p # u # cs))"
      using False by (simp only: hd_is_space_after_stop) simp
    then have "dropWhile is_space (space_after_stop (p # u # cs)) = space_after_stop (p # u # cs)"
      by (cases "space_after_stop (p # u # cs)") auto
    then show ?thesis using False by simp
  qed
qed simp_all

lemma spaces_then_percent_space_after_stop:
  "spaces_then_percent (space_after_stop s) = spaces_then_percent s"
  by (simp add: spaces_then_percent_def hd_is_space_after_stop dropWhile_space_after_stop)

lemma no_stop_capital_space_after_stop: "\<not> stop_capital (space_after_stop s)"
proof (induction s rule: space_after_stop.induct)
  case (1 p u cs)
  show ?case
  proof (cases "is_stop p \<and> is_upper u")
    case True
    then show ?thesis
      using 1(1) class_consts class_facts(8) [of u] by auto
  next
    case False
    then show ?thesis
      using 1(2) by (auto simp: hd_is_space_after_stop)
  qed
qed simp_all

lemma space_after_stop_fixed: "\<not> stop_capital s \<Longrightarrow> space_after_stop s = s"
  by (induction s rule: space_after_stop.induct) auto

lemma no_spaced_percent_space_after_stop:
  "\<not> spaced_percent s \<Longrightarrow> \<not> spaced_percent (space_after_stop s)"
proof (induction s rule: space_after_stop.induct)
  case (1 p u cs)
  show ?case
  proof (cases "is_stop p \<and> is_upper u")
    case True
    then have "\<not> is_digit p" "\<not> is_digit u"
      using class_facts(12) [of p] class_facts(14) [of u] by auto
    then show ?thesis
      using True 1(1) 1(3) class_consts(2) by simp
  next
    case False
    have "\<not> spaced_percent (space_after_stop (u # cs))"
      using False 1(2) 1(3) by auto
    then show ?thesis
      using False 1(3) spaces_then_percent_space_after_stop [of "u # cs"] by auto
  qed
qed simp_all

lemma no_digit_letter_space_after_stop:
  "\<not> digit_letter s \<Longrightarrow> \<not> digit_letter (space_after_stop s)"
proof (induction s rule: space_after_stop.induct)
  case (1 p u cs)
  show ?case
  proof (cases "is_stop p \<and> is_upper u")
    case True
    then have "\<not> is_digit p" "\<not> is_digit u"
      using class_facts(12) [of p] class_facts(14) [of u] by auto
    then show ?thesis
      using True 1(1) 1(3) class_consts(2) by simp
  next
    case False
    have "\<not> digit_letter (space_after_stop (u # cs))"
      using False 1(2) 1(3) by auto
    then show ?thesis
      using False 1(3) hd_is_space_after_stop [of is_alpha "u # cs"] by auto
  qed
qed simp_all

lemma single_spaces_space_after_stop:
  "single_spaces s \<Longrightarrow> single_spaces (space_after_stop s)"
proof (induction s rule: space_after_stop.induct)
  case (1 p u cs)
  show ?case
  proof (cases "is_stop p \<and> is_upper u")
    case True
    then have "\<not> is_space p" "\<not> is_space u"
      using class_facts(7) [of p] class_facts(13) [of u] by auto
    then show ?thesis
      using True 1(1) 1(3) class_consts(1) by simp
  next
    case False
    have "single_spaces (space_after_stop (u # cs))"
      using False 1(2) 1(3) by auto
    then show ?thesis
      using False 1(3) hd_is_space_after_stop [of is_space "u # cs"] by auto
  qed
qed simp_all

subsection \<open>The code units of a cleaned text\<close>

lemma set_fix_percent: "set (fix_percent s) \<subseteq> set s"
proof (induction s rule: fix_percent.induct)
  case 1
  then show ?case by simp
next
  case (2 c cs)
  show ?case
  proof (cases "percent_match c cs")
    case None
    then show ?thesis using 2(1) by auto
  next
    case (Some a)
    then obtain g n where a: "a = (g, n)" by (cases a)
    from percent_match_shape Some a obtain ws where
      sh: "c # cs = g @ ws @ 37 # drop n cs" by blast
    have "set (fix_percent (drop n cs)) \<subseteq> set (drop n cs)"
      using 2(2) Some a by simp
    then have "set (g @ [37] @ fix_percent (drop n cs)) \<subseteq> set (g @ ws @ 37 # drop n cs)"
      by auto
    then have "set (g @ [37] @ fix_percent (drop n cs)) \<subseteq> set (c # cs)"
      by (simp only: sh)
    moreover have "fix_percent (c # cs) = g @ [37] @ fix_percent (drop n cs)"
      using Some a by simp
    ultimately show ?thesis
      by (simp only:)
  qed
qed

lemma set_space_after_number: "set (space_after_number s) \<subseteq> insert 32 (set s)"
proof (induction s rule: space_after_number.induct)
  case 1
  then show ?case by simp
next
  case (2 c cs)
  define d where "d = takeWhile is_digit cs"
  show ?case
  proof (cases "is_digit c \<and> hd_is is_alpha (drop (length d) cs)")
    case True
    then obtain a r where ar: "drop (length d) cs = a # r" and a: "is_alpha a"
      by (cases "drop (length d) cs") auto
    have eq: "space_after_number (c # cs)
        = (c # d) @ 32 # a # space_after_number (drop (Suc (length d)) cs)"
      using True ar a by (simp add: d_def Let_def)
    have IH: "set (space_after_number (drop (Suc (length d)) cs))
        \<subseteq> insert 32 (set (drop (Suc (length d)) cs))"
      using 2(2) [of d a r] True ar a by (simp add: d_def)
    have "set d \<subseteq> set cs" by (auto simp: d_def dest: set_takeWhileD)
    moreover have "a \<in> set cs" using ar by (metis in_set_dropD list.set_intros(1))
    moreover have "set (drop (Suc (length d)) cs) \<subseteq> set cs" by (rule set_drop_subset)
    ultimately show ?thesis using eq IH by auto
  next
    case False
    have eq: "space_after_number (c # cs) = c # space_after_number cs"
      using False by (auto simp: d_def Let_def split: list.splits)
    have IH: "set (space_after_number cs) \<subseteq> insert 32 (set cs)"
    proof (cases "is_digit c")
      case c: True
      show ?thesis
      proof (cases "drop (length d) cs")
        case Nil
        then show ?thesis using 2(1) [of d] c by (simp add: d_def)
      next
        case (Cons a r)
        then have "\<not> is_alpha a" using False c by simp
        then show ?thesis using 2(3) [of d a r] c Cons by (simp add: d_def)
      qed
    next
      case c: False
      then show ?thesis using 2(4) by simp
    qed
    show ?thesis using eq IH by auto
  qed
qed

lemma set_collapse_spaces: "set (collapse_spaces s) \<subseteq> insert 32 (set s)"
proof (induction s rule: collapse_spaces.induct)
  case 1
  then show ?case by simp
next
  case (2 c cs)
  show ?case
  proof (cases "is_space c")
    case True
    have "set (drop (length (takeWhile is_space cs)) cs) \<subseteq> set cs" by (rule set_drop_subset)
    then show ?thesis using True 2(1) by auto
  next
    case False
    then show ?thesis using 2(2) by auto
  qed
qed

lemma set_space_after_stop: "set (space_after_stop s) \<subseteq> insert 32 (set s)"
  by (induction s rule: space_after_stop.induct) auto

lemma plain_32: "\<not> zero_width 32 \<and> \<not> non_breaking 32"
  by (simp add: zero_width_def non_breaking_def)

lemma plain_chars_subset:
  "plain_chars s \<Longrightarrow> set t \<subseteq> insert 32 (set s) \<Longrightarrow> plain_chars t"
  using plain_32 unfolding plain_chars_def list_all_iff by blast

lemma plain_chars_normalize: "plain_chars (normalizeStreamingText s)"
  by (auto simp: plain_chars_def normalizeStreamingText_def list_all_iff zero_width_def
      non_breaking_def)

lemma normalize_plain: "plain_chars s \<Longrightarrow> normalizeStreamingText s = s"
  by (auto simp: plain_chars_def normalizeStreamingText_def list_all_iff intro: map_idI)

lemma clean_as_four:
  "cleanCurrencyAndPercent s
     = space_after_stop (collapse_spaces (space_after_number (fix_percent s)))"
  by (cases s) (simp_all add: cleanCurrencyAndPercent_def fix_currency_id fix_decimal_id)

lemma plain_chars_clean: "plain_chars s \<Longrightarrow> plain_chars (cleanCurrencyAndPercent s)"
proof -
  assume p: "plain_chars s"
  have 1: "plain_chars (fix_percent s)"
    using p set_fix_percent [of s] by (auto intro: plain_chars_subset)
  have 2: "plain_chars (space_after_number (fix_percent s))"
    using 1 set_space_after_number by (rule plain_chars_subset)
  have 3: "plain_chars (collapse_spaces (space_after_number (fix_percent s)))"
    using 2 set_collapse_spaces by (rule plain_chars_subset)
  have 4: "plain_chars (space_after_stop (collapse_spaces (space_after_number (fix_percent s))))"
    using 3 set_space_after_stop by (rule plain_chars_subset)
  show ?thesis
    using 4 by (simp only: clean_as_four)
qed

subsection \<open>Idempotence\<close>

lemma clean_idempotent:
  "cleanCurrencyAndPercent (cleanCurrencyAndPercent s) = cleanCurrencyAndPercent s"
proof -
  let ?y = "space_after_stop (collapse_spaces (space_after_number (fix_percent s)))"
  have p: "\<not> spaced_percent ?y"
    by (intro no_spaced_percent_space_after_stop no_spaced_percent_collapse_spaces
        no_spaced_percent_space_after_number no_spaced_percent_fix_percent)
  have d: "\<not> digit_letter ?y"
    by (intro no_digit_letter_space_after_stop no_digit_letter_collapse_spaces
        no_digit_letter_space_after_number)
  have w: "single_spaces ?y"
    by (intro single_spaces_space_after_stop single_spaces_collapse_spaces)
  have c: "\<not> stop_capital ?y"
    by (rule no_stop_capital_space_after_stop)
  have "space_after_stop (collapse_spaces (space_after_number (fix_percent ?y))) = ?y"
    by (simp only: fix_percent_fixed [OF p] space_after_number_fixed [OF d]
        collapse_spaces_fixed [OF w] space_after_stop_fixed [OF c])
  then show ?thesis
    by (simp only: clean_as_four)
qed

lemma cleanup_idem: "cleanup (cleanup x) = cleanup x"
proof -
  have "plain_chars (cleanup x)"
    unfolding cleanup_def by (intro plain_chars_clean plain_chars_normalize)
  then have "normalizeStreamingText (cleanup x) = cleanup x"
    by (rule normalize_plain)
  then show ?thesis
    by (simp add: cleanup_def clean_idempotent)
qed

section \<open>The reconstructor\<close>

lemmas eval_defs = js_def trim_def is_space_def substring_def json_candidate_def
  cleanup_def cleanCurrencyAndPercent_def normalizeStreamingText_def zero_width_def non_breaking_def
  is_digit_def is_alpha_def is_upper_def is_stop_def is_line_terminator_def
  percent_match_def dollar_number_def decimal_match_def Let_def

subsection \<open>The text between the braces\<close>

lemma indexOf_append: "c \<notin> set xs \<Longrightarrow> indexOf (xs @ c # ys) c = Some (length xs)"
  by (induction xs) auto

lemma lastIndexOf_None: "c \<notin> set ys \<Longrightarrow> lastIndexOf ys c = None"
  by (induction ys) auto

lemma lastIndexOf_append: "c \<notin> set ys \<Longrightarrow> lastIndexOf (xs @ c # ys) c = Some (length xs)"
  by (induction xs) (auto simp: lastIndexOf_None)

lemma dropWhile_stop: "\<not> P y \<Longrightarrow> dropWhile P (xs @ y # ys) = dropWhile P xs @ y # ys"
  by (induction xs) auto

lemma trim_braces:
  "trim (pre @ 123 # body @ 125 # post)
     = dropWhile is_space pre @ 123 # body @ 125 # rev (dropWhile is_space (rev post))"
proof -
  have b: "\<not> is_space 123" "\<not> is_space 125"
    by (simp_all add: is_space_def)
  have "dropWhile is_space (pre @ 123 # body @ 125 # post)
      = dropWhile is_space pre @ 123 # body @ 125 # post"
    using b(1) by (rule dropWhile_stop)
  moreover have "dropWhile is_space (rev post @ 125 # rev body @ 123 # rev (dropWhile is_space pre))
      = dropWhile is_space (rev post) @ 125 # rev body @ 123 # rev (dropWhile is_space pre)"
    using b(2) by (rule dropWhile_stop)
  ultimately show ?thesis
    by (simp add: trim_def)
qed

lemma json_candidate_braces:
  assumes "123 \<notin> set pre" and "125 \<notin> set post"
  shows "json_candidate (pre @ 123 # body @ 125 # post) = 123 # body @ [125]"
proof -
  let ?pre = "dropWhile is_space pre"
  let ?post = "rev (dropWhile is_space (rev post))"
  have p: "123 \<notin> set ?pre"
    using assms(1) by (meson set_dropWhileD)
  have q: "125 \<notin> set ?post"
    using assms(2) by (metis set_dropWhileD set_rev)
  have i: "indexOf (?pre @ 123 # body @ 125 # ?post) 123 = Some (length ?pre)"
    using p by (rule indexOf_append)
  have "lastIndexOf ((?pre @ 123 # body) @ 125 # ?post) 125 = Some (length (?pre @ 123 # body))"
    using q by (rule lastIndexOf_append)
  then have j: "lastIndexOf (?pre @ 123 # body @ 125 # ?post) 125
      = Some (length ?pre + 1 + length body)"
    by simp
  show ?thesis
    by (simp add: json_candidate_def trim_braces i j substring_def)
qed

subsection \<open>A well-formed document\<close>

lemma map_clean_strings:
  "list_all is_string xs \<Longrightarrow> map_clean xs = Inr (map (\<lambda>p. cleanup (string_of p)) xs)"
proof (induction xs)
  case Nil
  then show ?case by simp
next
  case (Cons x xs)
  then show ?case by (cases x) auto
qed

lemma is_text_cases: "is_text v \<Longrightarrow> \<exists>s. v = JStr s \<and> s \<noteq> []"
  by (cases v) auto

lemma is_string_array_cases: "is_string_array v \<Longrightarrow> \<exists>xs. v = JArr xs \<and> list_all is_string xs"
  by (cases v) auto

lemma well_formed_attempt:
  assumes "JSON_parse (json_candidate r) = Some parsed" and "well_formed parsed"
  shows "structured_attempt r = Inr (Some (structured_text parsed))"
proof -
  from assms(2) obtain kvs where kvs: "parsed = JObj kvs"
    by (cases parsed) auto
  let ?s = "opt_prop parsed (js ''summary'')"
  let ?d = "opt_prop parsed (js ''details'')"
  let ?k = "opt_prop parsed (js ''key_points'')"
  from assms(2) kvs obtain s d xs where
    s: "?s = JStr s" "s \<noteq> []" and d: "?d = JStr d" "d \<noteq> []"
    and k: "?k = JArr xs" "list_all is_string xs" and st: "truthy (opt_prop parsed (js ''status''))"
    using is_text_cases [of ?s] is_text_cases [of ?d] is_string_array_cases [of ?k] by auto
  have g: "get_prop parsed (js ''summary'') = Inr ?s"
    by (simp add: kvs opt_prop_def)
  have r: "render_structured (JStr s) (JStr d) (JArr xs) = Inr (structured_text parsed)"
    using k(2) by (simp add: render_structured_def s d k map_clean_strings structured_text_def)
  show ?thesis
    using s d k st by (simp add: structured_attempt_def assms(1) g r)
qed

lemma well_formed_format:
  assumes "JSON_parse (json_candidate r) = Some parsed" and "well_formed parsed"
  shows "formatResponse r = structured_text parsed"
  by (simp add: formatResponse_def well_formed_attempt [OF assms])

text \<open>
  C10, as the claim states it, fails. The text between the first \<open>{\<close> and the last \<open>}\<close>
  parses, and its four properties are all truthy, but \<open>key_points\<close> is a string: the
  call of \<open>map\<close> throws, the \<open>catch\<close> block matches its patterns against the whole raw
  text, and the paragraph shown is the \<open>details\<close> that stands before the first brace,
  not the one of the document.
\<close>

theorem text_before_brace_is_shown:
  "json_candidate (js ''\"details\":\"X\" {\"summary\":\"S\",\"details\":\"D\",\"key_points\":\"kp\",\"status\":\"ok\"}'')
     = js ''{\"summary\":\"S\",\"details\":\"D\",\"key_points\":\"kp\",\"status\":\"ok\"}''
   \<and> JSON_parse (js ''{\"summary\":\"S\",\"details\":\"D\",\"key_points\":\"kp\",\"status\":\"ok\"}'')
     = Some (JObj [(js ''summary'', JStr (js ''S'')), (js ''details'', JStr (js ''D'')),
                   (js ''key_points'', JStr (js ''kp'')), (js ''status'', JStr (js ''ok''))])
   \<and> formatResponse (js ''\"details\":\"X\" {\"summary\":\"S\",\"details\":\"D\",\"key_points\":\"kp\",\"status\":\"ok\"}'')
     = js ''## S\<newline>\<newline>X''
   \<and> formatResponse (js ''{\"summary\":\"S\",\"details\":\"D\",\"key_points\":\"kp\",\"status\":\"ok\"}'')
     = js ''## S\<newline>\<newline>D''"
proof -
  let ?raw = "js ''\"details\":\"X\" {\"summary\":\"S\",\"details\":\"D\",\"key_points\":\"kp\",\"status\":\"ok\"}''"
  let ?sub = "js ''{\"summary\":\"S\",\"details\":\"D\",\"key_points\":\"kp\",\"status\":\"ok\"}''"
  let ?doc = "JObj [(js ''summary'', JStr (js ''S'')), (js ''details'', JStr (js ''D'')),
                   (js ''key_points'', JStr (js ''kp'')), (js ''status'', JStr (js ''ok''))]"
  have c1: "json_candidate ?raw = ?sub"
    by (simp add: eval_defs)
  have c2: "json_candidate ?sub = ?sub"
    by (simp add: eval_defs)
  have p: "JSON_parse ?sub = Some ?doc"
    by (simp add: JSON_parse_def js_def start_char_def is_digit_def)
  have cl: "cleanup (js ''S'') = js ''S''" "cleanup (js ''D'') = js ''D''"
    "cleanup (js ''X'') = js ''X''"
    by (simp_all add: eval_defs)
  have a1: "structured_attempt ?raw = Inl (TypeError ''parsed.key_points.map is not a function'')"
    by (simp only: structured_attempt_def c1 p)
       (simp add: opt_prop_def js_def render_structured_def cleanup_def)
  have a2: "structured_attempt ?sub = Inl (TypeError ''parsed.key_points.map is not a function'')"
    by (simp only: structured_attempt_def c2 p)
       (simp add: opt_prop_def js_def render_structured_def cleanup_def)
  have m1: "match_field (js ''summary'') ?raw = Some (js ''S'')"
    "match_field (js ''details'') ?raw = Some (js ''X'')"
    "match_key_points ?raw = None"
    by (simp_all add: field_at_def key_points_at_def eval_defs)
  have m2: "match_field (js ''summary'') ?sub = Some (js ''S'')"
    "match_field (js ''details'') ?sub = Some (js ''D'')"
    "match_key_points ?sub = None"
    by (simp_all add: field_at_def key_points_at_def eval_defs)
  have f1: "formatResponse ?raw = js ''## S\<newline>\<newline>X''"
    by (simp add: formatResponse_def a1 manual_extraction_def m1 cl) (simp add: js_def)
  have f2: "formatResponse ?sub = js ''## S\<newline>\<newline>D''"
    by (simp add: formatResponse_def a2 manual_extraction_def m2 cl) (simp add: js_def)
  show ?thesis
    using c1 p f1 f2 by simp
qed

text \<open>
  C10, amended. Let the raw text be \<open>pre @ {body} @ post\<close>, with no \<open>{\<close> in \<open>pre\<close> and no
  \<open>}\<close> in \<open>post\<close>, so that \<open>{body}\<close> runs from the first \<open>{\<close> to the last \<open>}\<close>. When
  \<open>{body}\<close> parses as an object whose \<open>summary\<close> and \<open>details\<close> are non-empty strings,
  whose \<open>key_points\<close> is an array of strings and whose \<open>status\<close> is truthy, the output
  is the layout of that object: it is the output for \<open>{body}\<close> alone, and \<open>pre\<close> and
  \<open>post\<close> leave no trace in it.
\<close>

theorem structured_output_from_braces:
  assumes "123 \<notin> set pre" and "125 \<notin> set post"
    and "JSON_parse (123 # body @ [125]) = Some parsed" and "well_formed parsed"
  shows "formatResponse (pre @ 123 # body @ 125 # post) = structured_text parsed
         \<and> formatResponse (pre @ 123 # body @ 125 # post) = formatResponse (123 # body @ [125])"
proof -
  have c: "json_candidate (pre @ 123 # body @ 125 # post) = 123 # body @ [125]"
    using assms(1,2) by (rule json_candidate_braces)
  have "json_candidate ([] @ 123 # body @ 125 # []) = 123 # body @ [125]"
    by (rule json_candidate_braces) simp_all
  then have c': "json_candidate (123 # body @ [125]) = 123 # body @ [125]"
    by simp
  have "formatResponse (pre @ 123 # body @ 125 # post) = structured_text parsed"
    using assms(3,4) by (intro well_formed_format) (simp_all add: c)
  moreover have "formatResponse (123 # body @ [125]) = structured_text parsed"
    using assms(3,4) by (intro well_formed_format) (simp_all add: c')
  ultimately show ?thesis by simp
qed

theorem structured_output_from_braces_witness:
  "123 \<notin> set (js ''Sure: '') \<and> 125 \<notin> set (js '' Done.'')
   \<and> JSON_parse (123 # js ''\"summary\":\"S\",\"details\":\"D\",\"key_points\":[\"A\",\"B\"],\"status\":\"ok\"'' @ [125])
       = Some (JObj [(js ''summary'', JStr (js ''S'')), (js ''details'', JStr (js ''D'')),
                     (js ''key_points'', JArr [JStr (js ''A''), JStr (js ''B'')]),
                     (js ''status'', JStr (js ''ok''))])
   \<and> well_formed (JObj [(js ''summary'', JStr (js ''S'')), (js ''details'', JStr (js ''D'')),
                     (js ''key_points'', JArr [JStr (js ''A''), JStr (js ''B'')]),
                     (js ''status'', JStr (js ''ok''))])
   \<and> formatResponse (js ''Sure: '' @ 123 # js ''\"summary\":\"S\",\"details\":\"D\",\"key_points\":[\"A\",\"B\"],\"status\":\"ok\"'' @ 125 # js '' Done.'')
       = js ''## S\<newline>\<newline>D\<newline>\<newline>### Key Points\<newline>\<newline>- A\<newline>- B''"
proof -
  let ?body = "js ''\"summary\":\"S\",\"details\":\"D\",\"key_points\":[\"A\",\"B\"],\"status\":\"ok\"''"
  let ?doc = "JObj [(js ''summary'', JStr (js ''S'')), (js ''details'', JStr (js ''D'')),
                     (js ''key_points'', JArr [JStr (js ''A''), JStr (js ''B'')]),
                     (js ''status'', JStr (js ''ok''))]"
  have h1: "123 \<notin> set (js ''Sure: '')" and h2: "125 \<notin> set (js '' Done.'')"
    by (simp_all add: js_def)
  have h3: "JSON_parse (123 # ?body @ [125]) = Some ?doc"
    by (simp add: JSON_parse_def js_def start_char_def is_digit_def)
  have h4: "well_formed ?doc"
    by (simp add: opt_prop_def js_def)
  have t: "structured_text ?doc
      = js ''## S\<newline>\<newline>D\<newline>\<newline>### Key Points\<newline>\<newline>- A\<newline>- B''"
    by (simp add: structured_text_def opt_prop_def bullet_list_def eval_defs)
  show ?thesis
    using structured_output_from_braces [OF h1 h2 h3 h4] h1 h2 h3 h4 t by simp
qed

subsection \<open>Applying the reconstructor twice\<close>

lemma no_structure_format: "\<not> recovers_structure x \<Longrightarrow> formatResponse x = cleanup x"
  by (auto simp: recovers_structure_def formatResponse_def split: sum.splits option.splits)

text \<open>
  C7, as the claim states it, fails. The raw text is the structured document of the
  specification's own example. Its output is the laid-out text, with line breaks; on
  that text no structure is recovered, and the cleanup turns each run of line breaks
  into one space.
\<close>

theorem structured_rendering_not_idempotent:
  "formatResponse (js ''{\"summary\":\"S\",\"details\":\"D\",\"key_points\":[\"A\",\"B\"],\"status\":\"ok\"}'')
     = js ''## S\<newline>\<newline>D\<newline>\<newline>### Key Points\<newline>\<newline>- A\<newline>- B''
   \<and> formatResponse (formatResponse
       (js ''{\"summary\":\"S\",\"details\":\"D\",\"key_points\":[\"A\",\"B\"],\"status\":\"ok\"}''))
     = js ''## S D ### Key Points - A - B''"
proof -
  let ?x = "js ''{\"summary\":\"S\",\"details\":\"D\",\"key_points\":[\"A\",\"B\"],\"status\":\"ok\"}''"
  let ?y = "js ''## S\<newline>\<newline>D\<newline>\<newline>### Key Points\<newline>\<newline>- A\<newline>- B''"
  let ?doc = "JObj [(js ''summary'', JStr (js ''S'')), (js ''details'', JStr (js ''D'')),
                     (js ''key_points'', JArr [JStr (js ''A''), JStr (js ''B'')]),
                     (js ''status'', JStr (js ''ok''))]"
  have c: "json_candidate ?x = ?x"
    by (simp add: eval_defs)
  have p: "JSON_parse ?x = Some ?doc"
    by (simp add: JSON_parse_def js_def start_char_def is_digit_def)
  have w: "well_formed ?doc"
    by (simp add: opt_prop_def js_def)
  have t: "structured_text ?doc = ?y"
    by (simp add: structured_text_def opt_prop_def bullet_list_def eval_defs)
  have "JSON_parse (json_candidate ?x) = Some ?doc"
    by (simp only: c p)
  then have f1: "formatResponse ?x = ?y"
    using w by (simp only: well_formed_format t)
  have c': "json_candidate ?y = ?y"
    by (simp add: eval_defs)
  have p': "JSON_parse ?y = None"
    by (simp add: JSON_parse_def js_def start_char_def is_digit_def)
  have a: "structured_attempt ?y = Inl (SyntaxError ''Unexpected token'')"
    by (simp only: structured_attempt_def c' p') simp
  have m: "match_field (js ''summary'') ?y = None"
    by (simp add: field_at_def eval_defs)
  have cl: "cleanup ?y = js ''## S D ### Key Points - A - B''"
    by (simp add: eval_defs)
  have f2: "formatResponse ?y = js ''## S D ### Key Points - A - B''"
    by (simp add: formatResponse_def a manual_extraction_def m cl)
  show ?thesis
    by (simp only: f1 f2)
qed

text \<open>
  C7, amended. The cleanup, \<open>cleanCurrencyAndPercent\<close> after \<open>normalizeStreamingText\<close>, is
  idempotent. It is what \<open>formatResponse\<close> returns when it recovers no structure, so
  applying \<open>formatResponse\<close> twice is the same as applying it once whenever neither
  application recovers a structure.
\<close>

theorem cleanup_idempotent:
  "cleanup (cleanup x) = cleanup x
   \<and> (\<not> recovers_structure x \<longrightarrow> formatResponse x = cleanup x)
   \<and> (\<not> recovers_structure x \<and> \<not> recovers_structure (cleanup x) \<longrightarrow>
        formatResponse (formatResponse x) = formatResponse x)"
  using no_structure_format [of x] no_structure_format [of "cleanup x"] cleanup_idem [of x]
  by auto

theorem cleanup_idempotent_witness:
  "\<not> recovers_structure (js ''Hello   world'')
   \<and> \<not> recovers_structure (cleanup (js ''Hello   world''))
   \<and> cleanup (js ''Hello   world'') = js ''Hello world''
   \<and> formatResponse (js ''Hello   world'') = js ''Hello world''
   \<and> formatResponse (formatResponse (js ''Hello   world'')) = js ''Hello world''"
proof -
  let ?x = "js ''Hello   world''"
  let ?y = "js ''Hello world''"
  have cl: "cleanup ?x = ?y"
    by (simp add: eval_defs)
  have cx: "json_candidate ?x = ?x" and cy: "json_candidate ?y = ?y"
    by (simp_all add: eval_defs)
  have px: "JSON_parse ?x = None" and py: "JSON_parse ?y = None"
    by (simp_all add: JSON_parse_def js_def start_char_def is_digit_def)
  have ax: "structured_attempt ?x = Inl (SyntaxError ''Unexpected token'')"
    by (simp only: structured_attempt_def cx px) simp
  have ay: "structured_attempt ?y = Inl (SyntaxError ''Unexpected token'')"
    by (simp only: structured_attempt_def cy py) simp
  have mx: "match_field (js ''summary'') ?x = None" and my: "match_field (js ''summary'') ?y = None"
    by (simp_all add: field_at_def eval_defs)
  have rx: "\<not> recovers_structure ?x"
    by (simp add: recovers_structure_def ax manual_extraction_def mx)
  have ry: "\<not> recovers_structure (cleanup ?x)"
    by (simp add: cl recovers_structure_def ay manual_extraction_def my)
  have f: "formatResponse ?x = cleanup ?x"
    and ff: "formatResponse (formatResponse ?x) = formatResponse ?x"
    using cleanup_idempotent [of ?x] rx ry by blast+
  have fy: "formatResponse ?x = ?y"
    by (simp only: f cl)
  have "formatResponse (formatResponse ?x) = ?y"
    using ff fy by (rule trans)
  then show ?thesis
    using rx ry cl fy by blast
qed

end
